theory Spec2Isabelle
  imports Main "HOL-Library.AList"
begin

section \<open>JavaScript values\<close>

text \<open>
  The data handled by \<^verbatim>\<open>navigation-component.js\<close> is plain JSON-like data: navigation
  bars, buttons, payloads. A value is one of the primitives, a plain object (its own
  enumerable properties in insertion order, as an association list) or a dense array.
  A Number is held as its decimal rendering (what \<^verbatim>\<open>String(n)\<close> gives): the code only
  tests numbers for truthiness and interpolates them into template literals.
  A string is a list of code units; the only code unit the code singles out is \<^verbatim>\<open>'.'\<close>.
\<close>

datatype jsval =
    JUndefined
  | JNull
  | JBool bool
  | JNum string
  | JStr string
  | JObj "(string \<times> jsval) list"
  | JArr "jsval list"

text \<open>
  The \<^verbatim>\<open>errors\<close> table of the source (lines 70-80), and the \<^verbatim>\<open>TypeError\<close> and
  \<^verbatim>\<open>SyntaxError\<close> the runtime itself throws.
\<close>

datatype error =
    invalidAppNavigator
  | noValidScreens
  | noScreenName
  | invalidScreenName string
  | TypeError
  | SyntaxError

text \<open>ToBoolean: what \<^verbatim>\<open>!x\<close>, \<^verbatim>\<open>x ? a : b\<close> and \<^verbatim>\<open>x || y\<close> test.\<close>

fun truthy :: "jsval \<Rightarrow> bool" where
  "truthy JUndefined = False"
| "truthy JNull = False"
| "truthy (JBool b) = b"
| "truthy (JNum n) = (n \<noteq> ''0'' \<and> n \<noteq> ''NaN'')"
| "truthy (JStr s) = (s \<noteq> [])"
| "truthy (JObj ps) = True"
| "truthy (JArr xs) = True"

text \<open>\<^verbatim>\<open>a || b\<close> on values.\<close>

definition js_or :: "jsval \<Rightarrow> jsval \<Rightarrow> jsval" where
  "js_or a b = (if truthy a then a else b)"

fun nullish :: "jsval \<Rightarrow> bool" where
  "nullish JUndefined = True"
| "nullish JNull = True"
| "nullish v = False"

text \<open>The decimal rendering of an array index.\<close>

definition digit :: "nat \<Rightarrow> char" where
  "digit d = char_of (of_char (CHR ''0'') + d)"

fun showNat :: "nat \<Rightarrow> string" where
  "showNat n = (if n < 10 then [digit n] else showNat (n div 10) @ [digit (n mod 10)])"

declare showNat.simps [simp del]

text \<open>
  ToString, as a template literal \<^verbatim>\<open>`${x}`\<close> applies it. An object is converted by
  calling its \<^verbatim>\<open>toString\<close>, then its \<^verbatim>\<open>valueOf\<close>. An object with no \<^verbatim>\<open>toString\<close> key of
  its own inherits \<^verbatim>\<open>Object.prototype.toString\<close> and renders as \<^verbatim>\<open>[object Object]\<close>. An own
  \<^verbatim>\<open>toString\<close> key holds data here, never a function, so it cannot be called; neither
  can an own \<^verbatim>\<open>valueOf\<close>, and the inherited \<^verbatim>\<open>valueOf\<close> returns the object itself: the
  conversion throws a TypeError. An array renders through \<^verbatim>\<open>join(',')\<close>, which converts
  the elements from left to right, an undefined or null element to the empty string.
\<close>

fun commaJoin :: "string list \<Rightarrow> string" where
  "commaJoin [] = []"
| "commaJoin [s] = s"
| "commaJoin (s # t # ss) = s @ '','' @ commaJoin (t # ss)"

fun toString :: "jsval \<Rightarrow> error + string"
  and toStrings :: "jsval list \<Rightarrow> error + string list" where
  "toString JUndefined = Inr ''undefined''"
| "toString JNull = Inr ''null''"
| "toString (JBool b) = Inr (if b then ''true'' else ''false'')"
| "toString (JNum n) = Inr n"
| "toString (JStr s) = Inr s"
| "toString (JObj ps) =
     (if ''toString'' \<in> set (map fst ps) then Inl TypeError else Inr ''[object Object]'')"
| "toString (JArr xs) =
     (case toStrings xs of Inl e \<Rightarrow> Inl e | Inr ss \<Rightarrow> Inr (commaJoin ss))"
| "toStrings [] = Inr []"
| "toStrings (x # xs) =
     (case (if nullish x then Inr [] else toString x) of
        Inl e \<Rightarrow> Inl e
      | Inr s \<Rightarrow> (case toStrings xs of Inl e \<Rightarrow> Inl e | Inr ss \<Rightarrow> Inr (s # ss)))"

text \<open>
  The own enumerable properties of a value, in order: what \<^verbatim>\<open>{...x}\<close> copies and
  \<^verbatim>\<open>Object.keys(x)\<close> lists. Undefined, null, booleans and numbers have none; a string
  and an array have their indices.
\<close>

definition indexed :: "jsval list \<Rightarrow> (string \<times> jsval) list" where
  "indexed xs = zip (map showNat [0..<length xs]) xs"

fun ownProps :: "jsval \<Rightarrow> (string \<times> jsval) list" where
  "ownProps (JObj ps) = ps"
| "ownProps (JArr xs) = indexed xs"
| "ownProps (JStr s) = indexed (map (\<lambda>c. JStr [c]) s)"
| "ownProps v = []"

text \<open>
  Reading a property \<^verbatim>\<open>x.k\<close> of a value that is not undefined or null. Only own
  properties are modelled (and \<^verbatim>\<open>length\<close> of strings and arrays): the keys this code
  reads as data (\<^verbatim>\<open>leftButton\<close>, \<^verbatim>\<open>buttons\<close>, \<^verbatim>\<open>id\<close>, \<^verbatim>\<open>title\<close>) are not on any built-in
  prototype. A missing property reads as undefined.
\<close>

definition lookupProp :: "(string \<times> jsval) list \<Rightarrow> string \<Rightarrow> jsval" where
  "lookupProp ps k = (case map_of ps k of Some v \<Rightarrow> v | None \<Rightarrow> JUndefined)"

fun getProp :: "jsval \<Rightarrow> string \<Rightarrow> jsval" where
  "getProp (JObj ps) k = lookupProp ps k"
| "getProp (JArr xs) k =
     (if k = ''length'' then JNum (showNat (length xs)) else lookupProp (indexed xs) k)"
| "getProp (JStr s) k =
     (if k = ''length'' then JNum (showNat (length s))
      else lookupProp (indexed (map (\<lambda>c. JStr [c]) s)) k)"
| "getProp v k = JUndefined"

text \<open>\<^verbatim>\<open>x.k\<close> with no guard before it: reading a property of undefined or null throws.\<close>

definition member :: "jsval \<Rightarrow> string \<Rightarrow> error + jsval" where
  "member v k = (if nullish v then Inl TypeError else Inr (getProp v k))"

section \<open>String primitives\<close>

text \<open>\<^verbatim>\<open>s.lastIndexOf(c)\<close> for a one-character search string: the greatest index, or -1.\<close>

fun lastIndexOf :: "string \<Rightarrow> char \<Rightarrow> int" where
  "lastIndexOf [] c = -1"
| "lastIndexOf (x # xs) c =
     (let r = lastIndexOf xs c
      in if r > -1 then r + 1 else if x = c then 0 else -1)"

text \<open>
  \<^verbatim>\<open>s.substring(start, end)\<close>: both ends are clamped to \<open>[0, length]\<close> and swapped when
  out of order; a missing end is the length.
\<close>

definition substring :: "string \<Rightarrow> int \<Rightarrow> int option \<Rightarrow> string" where
  "substring s start end =
     (let len = int (length s);
          a = min (max start 0) len;
          b = (case end of None \<Rightarrow> len | Some e \<Rightarrow> min (max e 0) len);
          from = min a b;
          to = max a b
      in take (nat (to - from)) (drop (nat from) s))"

section \<open>The navigation-bar localizer\<close>

text \<open>
  The qualified id built by the template literal \<^verbatim>\<open>`${routeName}.${id}`\<close>
  (lines 234 and 242). The route name is a string; the conversion of the id may throw.
\<close>

definition qualifiedId :: "string \<Rightarrow> jsval \<Rightarrow> error + string" where
  "qualifiedId routeName v =
     (case toString v of Inl e \<Rightarrow> Inl e | Inr s \<Rightarrow> Inr (routeName @ ''.'' @ s))"

text \<open>
  The callback of \<^verbatim>\<open>navigationBar.buttons.map\<close> (lines 239-243): a copy of the button
  with \<^verbatim>\<open>location\<close> and \<^verbatim>\<open>id\<close> set. Spreading undefined or null copies nothing, but
  \<^verbatim>\<open>button.id\<close> then throws; so may the template literal.
\<close>

definition localizeButton :: "string \<Rightarrow> jsval \<Rightarrow> error + jsval" where
  "localizeButton routeName button =
     (case member button ''id'' of
        Inl e \<Rightarrow> Inl e
      | Inr i \<Rightarrow>
          (case qualifiedId routeName i of
             Inl e \<Rightarrow> Inl e
           | Inr q \<Rightarrow>
               Inr (JObj (AList.update ''id'' (JStr q)
                           (AList.update ''location'' (JStr ''right'') (ownProps button))))))"

text \<open>\<^verbatim>\<open>xs.map(f)\<close> where \<open>f\<close> may throw: the first exception ends the loop.\<close>

fun mapE :: "('a \<Rightarrow> error + 'b) \<Rightarrow> 'a list \<Rightarrow> error + 'b list" where
  "mapE f [] = Inr []"
| "mapE f (x # xs) =
     (case f x of
        Inl e \<Rightarrow> Inl e
      | Inr y \<Rightarrow> (case mapE f xs of Inl e \<Rightarrow> Inl e | Inr ys \<Rightarrow> Inr (y # ys)))"

text \<open>
  The \<^verbatim>\<open>leftButton\<close> entry (lines 230-237); the receiver of each property read has been
  tested truthy just before.
\<close>

definition localizeLeftButton :: "string \<Rightarrow> jsval \<Rightarrow> error + jsval" where
  "localizeLeftButton routeName navigationBar =
     (let leftButton = getProp navigationBar ''leftButton''
      in if truthy leftButton
         then (case (if truthy (getProp leftButton ''id'')
                     then (case qualifiedId routeName (getProp leftButton ''id'') of
                             Inl e \<Rightarrow> Inl e
                           | Inr q \<Rightarrow> Inr (JStr q))
                     else Inr JUndefined) of
                 Inl e \<Rightarrow> Inl e
               | Inr i \<Rightarrow> Inr (JObj (AList.update ''id'' i (ownProps leftButton))))
         else Inr JUndefined)"

text \<open>
  The \<^verbatim>\<open>buttons\<close> entry (lines 238-244). Calling \<^verbatim>\<open>.map\<close> on a truthy value that is
  not an array throws (no function-valued property is part of the data modelled).
\<close>

definition localizeButtons :: "string \<Rightarrow> jsval \<Rightarrow> error + jsval" where
  "localizeButtons routeName navigationBar =
     (let buttons = getProp navigationBar ''buttons''
      in if truthy buttons
         then (case buttons of
                 JArr bs \<Rightarrow>
                   (case mapE (localizeButton routeName) bs of
                      Inl e \<Rightarrow> Inl e
                    | Inr bs' \<Rightarrow> Inr (JArr bs'))
               | _ \<Rightarrow> Inl TypeError)
         else Inr JUndefined)"

text \<open>
  \<^verbatim>\<open>static _localizeNavigationBar(routeName, navigationBar)\<close>, lines 224-246. The
  entries of the object literal are evaluated in order: \<^verbatim>\<open>leftButton\<close>, then \<^verbatim>\<open>buttons\<close>.
\<close>

definition localizeNavigationBar :: "string \<Rightarrow> jsval \<Rightarrow> error + jsval" where
  "localizeNavigationBar routeName navigationBar =
     (if \<not> truthy navigationBar then Inr (JObj [])
      else (case localizeLeftButton routeName navigationBar of
              Inl e \<Rightarrow> Inl e
            | Inr leftButton \<Rightarrow>
                (case localizeButtons routeName navigationBar of
                   Inl e \<Rightarrow> Inl e
                 | Inr buttons \<Rightarrow>
                     Inr (JObj (AList.update ''buttons'' buttons
                                 (AList.update ''leftButton'' leftButton
                                    (ownProps navigationBar)))))))"

text \<open>
  The destructuring \<^verbatim>\<open>const {k, ...rest} = v\<close>: \<open>rest\<close> is a new object with the own
  properties of \<open>v\<close> other than \<open>k\<close>; destructuring undefined or null throws.
\<close>

definition objectRest :: "string \<Rightarrow> jsval \<Rightarrow> error + jsval" where
  "objectRest k v =
     (if nullish v then Inl TypeError else Inr (JObj (AList.delete k (ownProps v))))"

section \<open>Screen classes, instances and the host\<close>

text \<open>
  A handler is a function value; the model keeps its identity and records its calls.
  \<open>defaultOnNavButtonPress\<close> is the static of lines 299-306, which only warns.
\<close>

datatype handler = defaultOnNavButtonPress | UserHandler nat

text \<open>
  What \<^verbatim>\<open>this.appNavigator\<close> may hold: a falsy value (the initial \<^verbatim>\<open>undefined\<close>), a truthy
  value that is not an instance of \<^verbatim>\<open>AppNavigator\<close>, or an \<^verbatim>\<open>AppNavigator\<close>. The class
  \<^verbatim>\<open>AppNavigator\<close> is imported from \<^verbatim>\<open>./app-navigator\<close>; the code reads only its
  \<^verbatim>\<open>screens\<close> property: absent (falsy), or an object from screen names to screen classes.
\<close>

datatype navigator =
    NavFalsy
  | NavForeign
  | NavApp "(string \<times> nat) list option"

fun navTruthy :: "navigator \<Rightarrow> bool" where
  "navTruthy NavFalsy = False"
| "navTruthy v = True"

fun instanceofAppNavigator :: "navigator \<Rightarrow> bool" where
  "instanceofAppNavigator (NavApp s) = True"
| "instanceofAppNavigator v = False"

fun screens :: "navigator \<Rightarrow> (string \<times> nat) list option" where
  "screens (NavApp s) = s"
| "screens v = None"

text \<open>
  The static properties of one class extending \<^verbatim>\<open>Component\<close> (lines 83-91), its static
  hooks, and the \<^verbatim>\<open>onNavButtonPress\<close> method its prototype may define.
\<close>

record screen_class =
  appNavigator :: navigator
  headerListener :: "nat option"
  displayName :: string
  route :: string
  autoReset :: bool
  navigationOptions :: jsval
  getDynamicTitle :: "jsval \<Rightarrow> jsval"
  onNavButtonPress :: "handler option"
  prototype_onNavButtonPress :: "handler option"

definition Component :: screen_class where
  "Component =
     \<lparr>appNavigator = NavFalsy,
      headerListener = None,
      displayName = ''Component'',
      route = '''',
      autoReset = True,
      navigationOptions = JObj [(''title'', JStr ''Untitled''), (''buttons'', JArr [])],
      getDynamicTitle = (\<lambda>jsonPayload. JUndefined),
      onNavButtonPress = Some defaultOnNavButtonPress,
      prototype_onNavButtonPress = None\<rparr>"

text \<open>
  An instance: the class that built it (\<^verbatim>\<open>this.constructor\<close>) and its own properties.
  \<^verbatim>\<open>this.headerListener\<close> is a property of the instance: the static of the same name lives
  on the class object, which is not on the prototype chain of an instance.
\<close>

record screen_instance =
  constructor :: nat
  props :: jsval
  jsonProps :: jsval
  this_headerListener :: "nat option"

text \<open>Requests handed to \<^verbatim>\<open>EnNavigationApi.requests()\<close>.\<close>

datatype request =
    Update jsval
  | Navigate jsval
  | Back "jsval option"
  | Finish string

text \<open>A call of a button-press handler: the function, its \<^verbatim>\<open>this\<close> and its argument.\<close>

datatype invocation = Invoke handler nat string

text \<open>
  The mutable state: the class objects and the instances, by reference; the listeners of
  the button-press event stream (handle and the instance the listener is bound to); the
  requests sent to the host; the console.
\<close>

record world =
  classes :: "nat \<Rightarrow> screen_class"
  instances :: "nat \<Rightarrow> screen_instance"
  next_instance :: nat
  listeners :: "(nat \<times> nat) list"
  next_handle :: nat
  requests :: "request list"
  console :: "string list"

text \<open>\<^verbatim>\<open>JSON.parse\<close> (\<open>None\<close>: a SyntaxError) and \<^verbatim>\<open>JSON.stringify\<close> are taken as given.\<close>

record host =
  JSON_parse :: "string \<Rightarrow> jsval option"
  JSON_stringify :: "jsval \<Rightarrow> string"

section \<open>The component\<close>

subsection \<open>Static methods\<close>

text \<open>
  A static method runs with \<^verbatim>\<open>this\<close> bound to a class object, given here by reference
  (\<open>cls\<close>); its static properties are read from and written to the world.
\<close>

text \<open>\<^verbatim>\<open>static setRegisteredRoute(route)\<close>, lines 128-138. \<^verbatim>\<open>!this.route\<close> holds of the empty string.\<close>

definition setRegisteredRoute :: "nat \<Rightarrow> string \<Rightarrow> world \<Rightarrow> world" where
  "setRegisteredRoute cls newRoute w =
     (if route (classes w cls) = []
      then w\<lparr>classes := (classes w)(cls := (classes w cls)\<lparr>route := newRoute\<rparr>)\<rparr>
      else w\<lparr>console := console w @
             [''This component has already been registered as '' @ [CHR 0x27] @
              route (classes w cls) @ [CHR 0x27] @ ''.  Not re-registering as '' @
              [CHR 0x27] @ newRoute @ [CHR 0x27] @ ''.'']\<rparr>)"

text \<open>\<^verbatim>\<open>static getRegisteredRoute()\<close>, lines 146-148.\<close>

definition getRegisteredRoute :: "nat \<Rightarrow> world \<Rightarrow> string" where
  "getRegisteredRoute cls w = route (classes w cls)"

text \<open>\<^verbatim>\<open>static setAppNavigator(appNavigator)\<close> and \<^verbatim>\<open>static getAppNavigator()\<close>, lines 155-166.\<close>

definition setAppNavigator :: "nat \<Rightarrow> navigator \<Rightarrow> world \<Rightarrow> world" where
  "setAppNavigator cls nav w =
     w\<lparr>classes := (classes w)(cls := (classes w cls)\<lparr>appNavigator := nav\<rparr>)\<rparr>"

definition getAppNavigator :: "nat \<Rightarrow> world \<Rightarrow> navigator" where
  "getAppNavigator cls w = appNavigator (classes w cls)"

text \<open>\<^verbatim>\<open>static _unlocalizeButtonId(buttonId)\<close>, lines 177-179.\<close>

definition unlocalizeButtonId :: "nat \<Rightarrow> string \<Rightarrow> world \<Rightarrow> string" where
  "unlocalizeButtonId cls buttonId w =
     substring buttonId (int (length (route (classes w cls))) + 1) None"

text \<open>
  The route a button id belongs to: the local \<^verbatim>\<open>buttonRoute\<close> of
  \<^verbatim>\<open>_shouldDispatchButtonPressEvent\<close>, lines 188-189.
\<close>

definition buttonRoute :: "string \<Rightarrow> string" where
  "buttonRoute buttonId =
     (let lastDot = lastIndexOf buttonId (CHR ''.'')
      in if lastDot > -1 then substring buttonId 0 (Some lastDot) else [])"

text \<open>\<^verbatim>\<open>static _shouldDispatchButtonPressEvent(buttonId)\<close>, lines 187-191.\<close>

definition shouldDispatchButtonPressEvent :: "nat \<Rightarrow> string \<Rightarrow> world \<Rightarrow> bool" where
  "shouldDispatchButtonPressEvent cls buttonId w =
     (buttonRoute buttonId = getRegisteredRoute cls w)"

text \<open>
  \<^verbatim>\<open>static _handleNavButtonPress(buttonId)\<close>, lines 204-212. The constructor binds it to
  the instance, so \<^verbatim>\<open>this\<close> is an instance here and \<^verbatim>\<open>this.constructor\<close> its class. The
  result is the handler call made, if any.
\<close>

definition handleNavButtonPress :: "nat \<Rightarrow> string \<Rightarrow> world \<Rightarrow> invocation option" where
  "handleNavButtonPress this buttonId w =
     (let cls = constructor (instances w this)
      in if shouldDispatchButtonPressEvent cls buttonId w
         then (case (case prototype_onNavButtonPress (classes w cls) of
                       Some h \<Rightarrow> Some h
                     | None \<Rightarrow> onNavButtonPress (classes w cls)) of
                 Some handler \<Rightarrow> Some (Invoke handler this (unlocalizeButtonId cls buttonId w))
               | None \<Rightarrow> None)
         else None)"

text \<open>\<^verbatim>\<open>static _getNavigationBar(jsonPayload)\<close>, lines 256-263.\<close>

definition getNavigationBar :: "nat \<Rightarrow> jsval \<Rightarrow> world \<Rightarrow> jsval" where
  "getNavigationBar cls jsonPayload w =
     (let c = classes w cls
      in JObj (AList.update ''title''
                 (js_or (getDynamicTitle c jsonPayload)
                        (getProp (js_or (navigationOptions c) (JObj [])) ''title''))
                 (ownProps (navigationOptions c))))"

text \<open>\<^verbatim>\<open>static _getLocalizedNavigationBar(jsonPayload)\<close>, lines 274-279.\<close>

definition getLocalizedNavigationBar :: "nat \<Rightarrow> jsval \<Rightarrow> world \<Rightarrow> error + jsval" where
  "getLocalizedNavigationBar cls jsonPayload w =
     localizeNavigationBar (route (classes w cls)) (getNavigationBar cls jsonPayload w)"

subsection \<open>Instance methods\<close>

text \<open>
  An instance method runs with \<^verbatim>\<open>this\<close> bound to an instance, given by reference. A method
  that throws returns the exception and the world as it was at that point.
\<close>

text \<open>\<^verbatim>\<open>updateNavigationBar(navigationBar)\<close>, lines 333-346.\<close>

definition updateNavigationBar :: "nat \<Rightarrow> jsval \<Rightarrow> world \<Rightarrow> (error + unit) \<times> world" where
  "updateNavigationBar this navigationBar w =
     (let cls = constructor (instances w this)
      in case localizeNavigationBar (route (classes w cls)) navigationBar of
           Inl e \<Rightarrow> (Inl e, w)
         | Inr localized \<Rightarrow>
             (case objectRest ''overlay'' localized of
                Inl e \<Rightarrow> (Inl e, w)
              | Inr localizedNavigationBar \<Rightarrow>
                  (Inr (),
                   w\<lparr>requests := requests w @
                       [Update (JObj [(''path'', JStr (route (classes w cls))),
                                      (''navigationBar'', localizedNavigationBar)])]\<rparr>)))"

text \<open>\<^verbatim>\<open>resetNavigationBar()\<close>, lines 316-322: \<^verbatim>\<open>_getNavigationBar\<close> is called with no argument.\<close>

definition resetNavigationBar :: "nat \<Rightarrow> world \<Rightarrow> (error + unit) \<times> world" where
  "resetNavigationBar this w =
     updateNavigationBar this
       (getNavigationBar (constructor (instances w this)) JUndefined w) w"

text \<open>
  \<^verbatim>\<open>constructor(props)\<close>, lines 93-104, for \<^verbatim>\<open>new cls(props)\<close>: a fresh instance is
  allocated and \<^verbatim>\<open>super(props)\<close> stores the props, then the body runs. The event stream
  is the one of \<^verbatim>\<open>ernnavigation-api\<close>: \<^verbatim>\<open>addOnNavButtonClickEventListener\<close> subscribes the
  listener and returns a fresh, truthy handle.
\<close>

definition Component_new :: "host \<Rightarrow> nat \<Rightarrow> jsval \<Rightarrow> world \<Rightarrow> (error + nat) \<times> world" where
  "Component_new H cls props0 w =
     (let this = next_instance w;
          w0 = w\<lparr>instances := (instances w)
                   (this := \<lparr>constructor = cls, props = props0, jsonProps = JUndefined,
                             this_headerListener = None\<rparr>),
                 next_instance := Suc this\<rparr>
      in case member props0 ''jsonPayload'' of
           Inl e \<Rightarrow> (Inl e, w0)
         | Inr jsonPayload \<Rightarrow>
        (case (if truthy jsonPayload
               then (case toString jsonPayload of
                       Inl e \<Rightarrow> Inl e
                     | Inr text \<Rightarrow>
                         (case JSON_parse H text of
                            None \<Rightarrow> Inl SyntaxError
                          | Some parsed \<Rightarrow> Inr parsed))
               else Inr (JObj [])) of
           Inl e \<Rightarrow> (Inl e, w0)
         | Inr parsed \<Rightarrow>
        (let w1 = w0\<lparr>instances := (instances w0)
                       (this := (instances w0 this)\<lparr>jsonProps := parsed\<rparr>)\<rparr>;
             w2 = (if this_headerListener (instances w1 this) = None
                   then (let handle = next_handle w1
                         in w1\<lparr>listeners := listeners w1 @ [(handle, this)],
                               next_handle := Suc handle,
                               instances := (instances w1)
                                 (this := (instances w1 this)
                                    \<lparr>this_headerListener := Some handle\<rparr>)\<rparr>)
                   else w1)
         in if autoReset (classes w2 cls)
            then (case resetNavigationBar this w2 of
                    (Inl e, w3) \<Rightarrow> (Inl e, w3)
                  | (Inr u, w3) \<Rightarrow> (Inr this, w3))
            else (Inr this, w2))))"

text \<open>\<^verbatim>\<open>componentWillUnmount()\<close>, lines 106-112.\<close>

definition componentWillUnmount :: "nat \<Rightarrow> world \<Rightarrow> world" where
  "componentWillUnmount this w =
     (case this_headerListener (instances w this) of
        Some handle \<Rightarrow> w\<lparr>listeners := filter (\<lambda>l. fst l \<noteq> handle) (listeners w)\<rparr>
      | None \<Rightarrow> w)"

text \<open>
  The event stream of \<^verbatim>\<open>ernnavigation-api\<close> firing a button-press event: every subscribed
  listener is called with the id, in subscription order. The result lists the handler
  calls made.
\<close>

definition emitNavButtonClick :: "string \<Rightarrow> world \<Rightarrow> invocation list" where
  "emitNavButtonClick buttonId w =
     List.map_filter (\<lambda>l. handleNavButtonPress (snd l) buttonId w) (listeners w)"

text \<open>\<^verbatim>\<open>navigate(route)\<close>, lines 357-359.\<close>

definition navigate :: "nat \<Rightarrow> jsval \<Rightarrow> world \<Rightarrow> (error + unit) \<times> world" where
  "navigate this routeObj w = (Inr (), w\<lparr>requests := requests w @ [Navigate routeObj]\<rparr>)"

text \<open>
  The checks that open \<^verbatim>\<open>navigateInternal\<close> (lines 374-395) and, word for word,
  \<^verbatim>\<open>backTo\<close> (lines 421-442): the exception thrown, if any, else the class registered
  under the screen name. \<^verbatim>\<open>Object.keys(screens).includes(screenName)\<close> holds only of a
  string equal to a key. The message of \<^verbatim>\<open>errors.invalidScreenName(screenName)\<close> is a
  template literal over the screen name, whose conversion may throw.
\<close>

definition checkInternal :: "nat \<Rightarrow> jsval \<Rightarrow> world \<Rightarrow> error + jsval" where
  "checkInternal cls screenName w =
     (if \<not> navTruthy (getAppNavigator cls w) then Inl invalidAppNavigator
      else if \<not> instanceofAppNavigator (getAppNavigator cls w) then Inl invalidAppNavigator
      else (case screens (getAppNavigator cls w) of
              None \<Rightarrow> Inl noValidScreens
            | Some scr \<Rightarrow>
                if length (map fst scr) < 1 then Inl noValidScreens
                else if \<not> truthy screenName then Inl noScreenName
                else if screenName \<notin> set (map JStr (map fst scr))
                then (case toString screenName of
                        Inl e \<Rightarrow> Inl e
                      | Inr name \<Rightarrow> Inl (invalidScreenName name))
                else Inr screenName))"

text \<open>
  \<^verbatim>\<open>getAppNavigator().screens[screenName]\<close>, after the checks: the class under that key.
  A method call on a missing entry would throw.
\<close>

definition screenClass :: "nat \<Rightarrow> jsval \<Rightarrow> world \<Rightarrow> error + nat" where
  "screenClass cls screenName w =
     (case screens (getAppNavigator cls w) of
        None \<Rightarrow> Inl TypeError
      | Some scr \<Rightarrow>
          (case toString screenName of
             Inl e \<Rightarrow> Inl e
           | Inr name \<Rightarrow>
               (case map_of scr name of
                  None \<Rightarrow> Inl TypeError
                | Some target \<Rightarrow> Inr target)))"

text \<open>\<^verbatim>\<open>navigateInternal(screenName, jsonPayload)\<close>, lines 373-408.\<close>

definition navigateInternal ::
  "host \<Rightarrow> nat \<Rightarrow> jsval \<Rightarrow> jsval \<Rightarrow> world \<Rightarrow> (error + unit) \<times> world" where
  "navigateInternal H this screenName jsonPayload w =
     (let cls = constructor (instances w this)
      in case checkInternal cls screenName w of
           Inl e \<Rightarrow> (Inl e, w)
         | Inr name \<Rightarrow>
        (case screenClass cls name w of
           Inl e \<Rightarrow> (Inl e, w)
         | Inr nav \<Rightarrow>
        (case getLocalizedNavigationBar nav jsonPayload w of
           Inl e \<Rightarrow> (Inl e, w)
         | Inr localized \<Rightarrow>
        (case objectRest ''overlay'' localized of
           Inl e \<Rightarrow> (Inl e, w)
         | Inr navigationBar \<Rightarrow>
             (Inr (),
              w\<lparr>requests := requests w @
                  [Navigate (JObj
                     [(''path'', JStr (getRegisteredRoute nav w)),
                      (''overlay'', getProp localized ''overlay''),
                      (''navigationBar'', navigationBar),
                      (''jsonPayload'',
                         JStr (JSON_stringify H (js_or jsonPayload (JObj []))))])]\<rparr>)))))"

text \<open>\<^verbatim>\<open>backTo(screenName)\<close>, lines 420-449.\<close>

definition backTo :: "nat \<Rightarrow> jsval \<Rightarrow> world \<Rightarrow> (error + unit) \<times> world" where
  "backTo this screenName w =
     (let cls = constructor (instances w this)
      in case checkInternal cls screenName w of
           Inl e \<Rightarrow> (Inl e, w)
         | Inr name \<Rightarrow>
        (case screenClass cls name w of
           Inl e \<Rightarrow> (Inl e, w)
         | Inr target \<Rightarrow>
             (Inr (),
              w\<lparr>requests := requests w @
                  [Back (Some (JObj [(''path'', JStr (getRegisteredRoute target w))]))]\<rparr>)))"

text \<open>\<^verbatim>\<open>back()\<close>, lines 459-461, and \<^verbatim>\<open>finish(payload)\<close>, lines 473-475.\<close>

definition back' :: "nat \<Rightarrow> world \<Rightarrow> (error + unit) \<times> world" where
  "back' this w = (Inr (), w\<lparr>requests := requests w @ [Back None]\<rparr>)"

definition finish :: "host \<Rightarrow> nat \<Rightarrow> jsval \<Rightarrow> world \<Rightarrow> (error + unit) \<times> world" where
  "finish H this payload w =
     (Inr (), w\<lparr>requests := requests w @
                  [Finish (JSON_stringify H (js_or payload (JObj [])))]\<rparr>)"

section \<open>The shape of a navigation bar\<close>

text \<open>
  The typedefs of lines 44-68 describe a \<^verbatim>\<open>NavigationBar\<close> as an object whose
  \<^verbatim>\<open>buttons\<close> is an array of \<^verbatim>\<open>Button\<close> objects and whose optional \<^verbatim>\<open>leftButton\<close> is a
  \<^verbatim>\<open>LeftButton\<close> object; the \<^verbatim>\<open>id\<close> of a \<^verbatim>\<open>Button\<close> is a string (\<^verbatim>\<open>{!string}\<close>), that of a
  \<^verbatim>\<open>LeftButton\<close> a string or nothing (\<^verbatim>\<open>{?string}\<close>). That much of the shape is fixed
  here: \<^verbatim>\<open>buttons\<close> and \<^verbatim>\<open>leftButton\<close> may each be missing or null, as the localizer
  allows, and the types of the other fields are left open.
\<close>

fun isObject :: "jsval \<Rightarrow> bool" where
  "isObject (JObj ps) = True"
| "isObject v = False"

fun isString :: "jsval \<Rightarrow> bool" where
  "isString (JStr s) = True"
| "isString v = False"

definition isButton :: "jsval \<Rightarrow> bool" where
  "isButton b = (isObject b \<and> isString (getProp b ''id''))"

fun isButtons :: "jsval \<Rightarrow> bool" where
  "isButtons JUndefined = True"
| "isButtons JNull = True"
| "isButtons (JArr bs) = list_all isButton bs"
| "isButtons v = False"

fun isLeftButton :: "jsval \<Rightarrow> bool" where
  "isLeftButton JUndefined = True"
| "isLeftButton JNull = True"
| "isLeftButton (JObj ps) =
     (isString (lookupProp ps ''id'') \<or> nullish (lookupProp ps ''id''))"
| "isLeftButton v = False"

definition isNavigationBar :: "jsval \<Rightarrow> bool" where
  "isNavigationBar b =
     (isObject b \<and> isButtons (getProp b ''buttons'') \<and> isLeftButton (getProp b ''leftButton''))"

text \<open>
  The words of the specification for \<^verbatim>\<open>updateBar\<close>: the bar with its \<^verbatim>\<open>overlay\<close> field
  removed, and the payload \<^verbatim>\<open>{path: route, navigationBar: localizedBar}\<close>.
\<close>

definition withoutOverlay :: "jsval \<Rightarrow> jsval" where
  "withoutOverlay b = JObj (AList.delete ''overlay'' (ownProps b))"

definition updatePayload :: "string \<Rightarrow> jsval \<Rightarrow> jsval" where
  "updatePayload r localizedBar = JObj [(''path'', JStr r), (''navigationBar'', localizedBar)]"

section \<open>The localizer on a store\<close>

text \<open>
  Whether \<^verbatim>\<open>_localizeNavigationBar\<close> writes to the objects it is given is a question about
  references. Here a value is a primitive or a reference to a cell of a store; an object
  literal and \<^verbatim>\<open>Array.prototype.map\<close> allocate a new cell; a property read follows a
  reference. The function below is the one of lines 224-246 again, with the store passed
  along.
\<close>

datatype hval =
    HUndefined
  | HNull
  | HBool bool
  | HNum string
  | HStr string
  | HRef nat

datatype cell =
    HObject "(string \<times> hval) list"
  | HArray "hval list"

record heap =
  cells :: "nat \<Rightarrow> cell"
  next_free :: nat

definition alloc :: "cell \<Rightarrow> heap \<Rightarrow> nat \<times> heap" where
  "alloc c h = (next_free h, h\<lparr>cells := (cells h)(next_free h := c), next_free := Suc (next_free h)\<rparr>)"

fun htruthy :: "hval \<Rightarrow> bool" where
  "htruthy HUndefined = False"
| "htruthy HNull = False"
| "htruthy (HBool b) = b"
| "htruthy (HNum n) = (n \<noteq> ''0'' \<and> n \<noteq> ''NaN'')"
| "htruthy (HStr s) = (s \<noteq> [])"
| "htruthy (HRef a) = True"

fun hnullish :: "hval \<Rightarrow> bool" where
  "hnullish HUndefined = True"
| "hnullish HNull = True"
| "hnullish v = False"

text \<open>
  ToString. The conversion of an object (the string it renders as, or the TypeError it
  throws) reads the store and writes nothing; it is taken as given (\<open>str\<close>).
\<close>

fun htoString ::
  "(heap \<Rightarrow> nat \<Rightarrow> error + string) \<Rightarrow> heap \<Rightarrow> hval \<Rightarrow> error + string" where
  "htoString str h HUndefined = Inr ''undefined''"
| "htoString str h HNull = Inr ''null''"
| "htoString str h (HBool b) = Inr (if b then ''true'' else ''false'')"
| "htoString str h (HNum n) = Inr n"
| "htoString str h (HStr s) = Inr s"
| "htoString str h (HRef a) = str h a"

text \<open>The template literal \<^verbatim>\<open>`${routeName}.${id}`\<close> on the store.\<close>

definition hqualifiedId ::
  "(heap \<Rightarrow> nat \<Rightarrow> error + string) \<Rightarrow> string \<Rightarrow> heap \<Rightarrow> hval \<Rightarrow> error + string" where
  "hqualifiedId str routeName h v =
     (case htoString str h v of Inl e \<Rightarrow> Inl e | Inr s \<Rightarrow> Inr (routeName @ ''.'' @ s))"

definition hindexed :: "hval list \<Rightarrow> (string \<times> hval) list" where
  "hindexed xs = zip (map showNat [0..<length xs]) xs"

fun cellProps :: "cell \<Rightarrow> (string \<times> hval) list" where
  "cellProps (HObject ps) = ps"
| "cellProps (HArray xs) = hindexed xs"

fun hownProps :: "heap \<Rightarrow> hval \<Rightarrow> (string \<times> hval) list" where
  "hownProps h (HRef a) = cellProps (cells h a)"
| "hownProps h (HStr s) = hindexed (map (\<lambda>c. HStr [c]) s)"
| "hownProps h v = []"

definition hlookupProp :: "(string \<times> hval) list \<Rightarrow> string \<Rightarrow> hval" where
  "hlookupProp ps k = (case map_of ps k of Some v \<Rightarrow> v | None \<Rightarrow> HUndefined)"

fun cellProp :: "cell \<Rightarrow> string \<Rightarrow> hval" where
  "cellProp (HObject ps) k = hlookupProp ps k"
| "cellProp (HArray xs) k =
     (if k = ''length'' then HNum (showNat (length xs)) else hlookupProp (hindexed xs) k)"

fun hgetProp :: "heap \<Rightarrow> hval \<Rightarrow> string \<Rightarrow> hval" where
  "hgetProp h (HRef a) k = cellProp (cells h a) k"
| "hgetProp h (HStr s) k =
     (if k = ''length'' then HNum (showNat (length s))
      else hlookupProp (hindexed (map (\<lambda>c. HStr [c]) s)) k)"
| "hgetProp h v k = HUndefined"

definition hmember :: "heap \<Rightarrow> hval \<Rightarrow> string \<Rightarrow> error + hval" where
  "hmember h v k = (if hnullish v then Inl TypeError else Inr (hgetProp h v k))"

text \<open>The callback of \<^verbatim>\<open>buttons.map\<close>, lines 239-243: the object literal is a new cell.\<close>

definition hlocalizeButton ::
  "(heap \<Rightarrow> nat \<Rightarrow> error + string) \<Rightarrow> string \<Rightarrow> heap \<Rightarrow> hval \<Rightarrow>
   (error + hval) \<times> heap" where
  "hlocalizeButton str routeName h button =
     (case hmember h button ''id'' of
        Inl e \<Rightarrow> (Inl e, h)
      | Inr i \<Rightarrow>
          (case hqualifiedId str routeName h i of
             Inl e \<Rightarrow> (Inl e, h)
           | Inr q \<Rightarrow>
               (let (a, h') = alloc (HObject
                       (AList.update ''id'' (HStr q)
                          (AList.update ''location'' (HStr ''right'') (hownProps h button)))) h
                in (Inr (HRef a), h'))))"

text \<open>\<^verbatim>\<open>xs.map(f)\<close> with the store passed from one call of \<open>f\<close> to the next.\<close>

fun hmapE ::
  "(heap \<Rightarrow> hval \<Rightarrow> (error + hval) \<times> heap) \<Rightarrow> heap \<Rightarrow> hval list \<Rightarrow> (error + hval list) \<times> heap"
where
  "hmapE f h [] = (Inr [], h)"
| "hmapE f h (x # xs) =
     (case f h x of
        (Inl e, h') \<Rightarrow> (Inl e, h')
      | (Inr y, h') \<Rightarrow>
          (case hmapE f h' xs of
             (Inl e, h'') \<Rightarrow> (Inl e, h'')
           | (Inr ys, h'') \<Rightarrow> (Inr (y # ys), h'')))"

text \<open>The \<^verbatim>\<open>leftButton\<close> entry, lines 230-237.\<close>

definition hlocalizeLeftButton ::
  "(heap \<Rightarrow> nat \<Rightarrow> error + string) \<Rightarrow> string \<Rightarrow> heap \<Rightarrow> hval \<Rightarrow>
   (error + hval) \<times> heap" where
  "hlocalizeLeftButton str routeName h navigationBar =
     (let leftButton = hgetProp h navigationBar ''leftButton''
      in if htruthy leftButton
         then (case (if htruthy (hgetProp h leftButton ''id'')
                     then (case hqualifiedId str routeName h (hgetProp h leftButton ''id'') of
                             Inl e \<Rightarrow> Inl e
                           | Inr q \<Rightarrow> Inr (HStr q))
                     else Inr HUndefined) of
                 Inl e \<Rightarrow> (Inl e, h)
               | Inr i \<Rightarrow>
                   (let (a, h') = alloc (HObject
                           (AList.update ''id'' i (hownProps h leftButton))) h
                    in (Inr (HRef a), h')))
         else (Inr HUndefined, h))"

text \<open>The \<^verbatim>\<open>buttons\<close> entry, lines 238-244: \<^verbatim>\<open>map\<close> returns a new array.\<close>

definition hlocalizeButtons ::
  "(heap \<Rightarrow> nat \<Rightarrow> error + string) \<Rightarrow> string \<Rightarrow> heap \<Rightarrow> hval \<Rightarrow>
   (error + hval) \<times> heap" where
  "hlocalizeButtons str routeName h navigationBar =
     (let buttons = hgetProp h navigationBar ''buttons''
      in if htruthy buttons
         then (case buttons of
                 HRef b \<Rightarrow>
                   (case cells h b of
                      HArray bs \<Rightarrow>
                        (case hmapE (hlocalizeButton str routeName) h bs of
                           (Inl e, h') \<Rightarrow> (Inl e, h')
                         | (Inr bs', h') \<Rightarrow>
                             (let (a, h'') = alloc (HArray bs') h' in (Inr (HRef a), h'')))
                    | HObject ps \<Rightarrow> (Inl TypeError, h))
               | _ \<Rightarrow> (Inl TypeError, h))
         else (Inr HUndefined, h))"

text \<open>
  \<^verbatim>\<open>static _localizeNavigationBar(routeName, navigationBar)\<close>, lines 224-246, on the
  store: the result and the store after the call.
\<close>

definition hlocalizeNavigationBar ::
  "(heap \<Rightarrow> nat \<Rightarrow> error + string) \<Rightarrow> string \<Rightarrow> hval \<Rightarrow> heap \<Rightarrow>
   (error + hval) \<times> heap" where
  "hlocalizeNavigationBar str routeName navigationBar h =
     (if \<not> htruthy navigationBar
      then (let (a, h') = alloc (HObject []) h in (Inr (HRef a), h'))
      else (let spread = hownProps h navigationBar
            in case hlocalizeLeftButton str routeName h navigationBar of
                 (Inl e, h1) \<Rightarrow> (Inl e, h1)
               | (Inr leftButton, h1) \<Rightarrow>
                   (case hlocalizeButtons str routeName h1 navigationBar of
                      (Inl e, h2) \<Rightarrow> (Inl e, h2)
                    | (Inr buttons, h2) \<Rightarrow>
                        (let (a, h3) = alloc (HObject
                                (AList.update ''buttons'' buttons
                                   (AList.update ''leftButton'' leftButton spread))) h2
                         in (Inr (HRef a), h3)))))"

text \<open>
  A store \<open>h'\<close> keeps a store \<open>h\<close>: every cell allocated in \<open>h\<close> is in \<open>h'\<close> with the same
  contents.
\<close>

definition keeps :: "heap \<Rightarrow> heap \<Rightarrow> bool" where
  "keeps h h' =
     (next_free h \<le> next_free h' \<and>
      list_all (\<lambda>a. cells h' a = cells h a) [0..<next_free h])"

text \<open>A value is fresh: a reference to a cell allocated between \<open>h\<close> and \<open>h'\<close>.\<close>

fun fresh :: "heap \<Rightarrow> heap \<Rightarrow> hval \<Rightarrow> bool" where
  "fresh h h' (HRef a) = (next_free h \<le> a \<and> a < next_free h')"
| "fresh h h' v = False"

text \<open>
  The two models of the localizer are tied together by reading a store value as a tree:
  \<open>rep h t v\<close> says that in the store \<open>h\<close> the value \<open>v\<close> unfolds to the tree \<open>t\<close>, every
  reference followed being to an allocated cell.
\<close>

fun rep :: "heap \<Rightarrow> jsval \<Rightarrow> hval \<Rightarrow> bool" where
  "rep h JUndefined v = (v = HUndefined)"
| "rep h JNull v = (v = HNull)"
| "rep h (JBool b) v = (v = HBool b)"
| "rep h (JNum n) v = (v = HNum n)"
| "rep h (JStr s) v = (v = HStr s)"
| "rep h (JObj ps) v =
     (case v of
        HRef a \<Rightarrow>
          a < next_free h \<and>
          (case cells h a of
             HObject qs \<Rightarrow> list_all2 (\<lambda>p q. fst p = fst q \<and> rep h (snd p) (snd q)) ps qs
           | HArray vs \<Rightarrow> False)
      | _ \<Rightarrow> False)"
| "rep h (JArr ts) v =
     (case v of
        HRef a \<Rightarrow>
          a < next_free h \<and>
          (case cells h a of
             HObject qs \<Rightarrow> False
           | HArray vs \<Rightarrow> list_all2 (rep h) ts vs)
      | _ \<Rightarrow> False)"

text \<open>The same for property lists, key by key.\<close>

definition repProps :: "heap \<Rightarrow> (string \<times> jsval) list \<Rightarrow> (string \<times> hval) list \<Rightarrow> bool" where
  "repProps h ps qs = list_all2 (\<lambda>p q. fst p = fst q \<and> rep h (snd p) (snd q)) ps qs"

text \<open>Two outcomes agree: the same exception, or a store value that unfolds to the tree.\<close>

fun sim :: "heap \<Rightarrow> error + jsval \<Rightarrow> error + hval \<Rightarrow> bool" where
  "sim h (Inl e) (Inl e') = (e = e')"
| "sim h (Inr t) (Inr v) = rep h t v"
| "sim h x y = False"

text \<open>
  The conversion of objects to strings taken as given in the store model is the one of
  the value model: \<open>str h a\<close> is \<open>toString\<close> of the tree the cell unfolds to.
\<close>

definition rendering :: "(heap \<Rightarrow> nat \<Rightarrow> error + string) \<Rightarrow> bool" where
  "rendering str = (\<forall>h a t. rep h t (HRef a) \<longrightarrow> str h a = toString t)"

text \<open>
  What the callback of \<^verbatim>\<open>buttons.map\<close> returns for a button that is an object with a
  string as \<^verbatim>\<open>id\<close>.
\<close>

fun characters :: "jsval \<Rightarrow> string" where
  "characters (JStr s) = s"
| "characters v = []"

definition localizedButton :: "string \<Rightarrow> jsval \<Rightarrow> jsval" where
  "localizedButton routeName button =
     JObj (AList.update ''id''
             (JStr (routeName @ ''.'' @ characters (getProp button ''id'')))
             (AList.update ''location'' (JStr ''right'') (ownProps button)))"

text \<open>
  What the \<^verbatim>\<open>leftButton\<close> entry evaluates to for a left button whose \<^verbatim>\<open>id\<close>, if any,
  is a string.
\<close>

definition localizedLeftButton :: "string \<Rightarrow> jsval \<Rightarrow> jsval" where
  "localizedLeftButton routeName leftButton =
     (if truthy leftButton
      then JObj (AList.update ''id''
                  (if truthy (getProp leftButton ''id'')
                   then JStr (routeName @ ''.'' @ characters (getProp leftButton ''id''))
                   else JUndefined)
                  (ownProps leftButton))
      else JUndefined)"

section \<open>Sample states\<close>

definition world0 :: world where
  "world0 =
     \<lparr>classes = (\<lambda>cls. Component),
      instances = (\<lambda>this. \<lparr>constructor = 0, props = JObj [], jsonProps = JObj [],
                           this_headerListener = None\<rparr>),
      next_instance = 0,
      listeners = [],
      next_handle = 0,
      requests = [],
      console = []\<rparr>"

definition host0 :: host where
  "host0 = \<lparr>JSON_parse = (\<lambda>s. None), JSON_stringify = (\<lambda>v. ''{}'')\<rparr>"

text \<open>Two classes, registered as \<^verbatim>\<open>"A"\<close> and \<^verbatim>\<open>"B"\<close>, with one mounted instance each.\<close>

definition worldAB :: world where
  "worldAB =
     \<lparr>classes = (\<lambda>cls. if cls = 0 then Component\<lparr>route := ''A''\<rparr>
                       else Component\<lparr>route := ''B'',
                                      prototype_onNavButtonPress := Some (UserHandler 7)\<rparr>),
      instances = (\<lambda>this. \<lparr>constructor = this, props = JObj [], jsonProps = JObj [],
                           this_headerListener = Some this\<rparr>),
      next_instance = 2,
      listeners = [(0, 0), (1, 1)],
      next_handle = 2,
      requests = [],
      console = []\<rparr>"

text \<open>A bar with an overlay flag, a left button with no id and one right button.\<close>

definition sampleButton :: jsval where
  "sampleButton =
     JObj [(''icon'', JStr ''x''), (''id'', JStr ''exit''), (''location'', JStr ''left'')]"

definition sampleBar :: jsval where
  "sampleBar =
     JObj [(''title'', JStr ''Cart''),
           (''overlay'', JBool True),
           (''leftButton'', JObj [(''icon'', JStr ''back'')]),
           (''buttons'', JArr [sampleButton])]"

text \<open>The same bar in a store: cell 0 the bar, 1 its left button, 2 the array, 3 the button.\<close>

definition sampleHeap :: heap where
  "sampleHeap =
     \<lparr>cells = (\<lambda>a. if a = 0 then HObject [(''title'', HStr ''Cart''),
                                           (''overlay'', HBool True),
                                           (''leftButton'', HRef 1),
                                           (''buttons'', HRef 2)]
                    else if a = 1 then HObject [(''icon'', HStr ''back'')]
                    else if a = 2 then HArray [HRef 3]
                    else HObject [(''icon'', HStr ''x''), (''id'', HStr ''exit''),
                                  (''location'', HStr ''left'')]),
      next_free = 4\<rparr>"

text \<open>The conversion of \<^verbatim>\<open>Object.prototype.toString\<close>, for a store of plain objects.\<close>

definition sampleStr :: "heap \<Rightarrow> nat \<Rightarrow> error + string" where
  "sampleStr h a = Inr ''[object Object]''"

section \<open>Facts about the primitives\<close>

lemma lastIndexOf_absent: "c \<notin> set xs \<Longrightarrow> lastIndexOf xs c = -1"
  by (induction xs) (auto simp: Let_def)

lemma lastIndexOf_last: "c \<notin> set ys \<Longrightarrow> lastIndexOf (xs @ c # ys) c = int (length xs)"
  by (induction xs) (auto simp: Let_def lastIndexOf_absent)

lemma substring_prefix: "substring (xs @ ys) 0 (Some (int (length xs))) = xs"
  by (simp add: substring_def Let_def)

lemma substring_suffix: "substring (xs @ ys) (int (length xs)) None = ys"
  by (simp add: substring_def Let_def)

lemma lookupProp_update:
  "lookupProp (AList.update k v ps) k' = (if k' = k then v else lookupProp ps k')"
  by (simp add: lookupProp_def update_conv')

lemma lookupProp_delete:
  "k' \<noteq> k \<Longrightarrow> lookupProp (AList.delete k ps) k' = lookupProp ps k'"
  by (simp add: lookupProp_def)

section \<open>The button-id codec\<close>

lemma buttonRoute_qualified:
  "CHR ''.'' \<notin> set x \<Longrightarrow> buttonRoute (r @ ''.'' @ x) = r"
  by (simp add: buttonRoute_def lastIndexOf_last Let_def substring_prefix)

lemma unlocalize_qualified:
  "route (classes w cls) = r \<Longrightarrow> unlocalizeButtonId cls (r @ ''.'' @ x) w = x"
  using substring_suffix [of "r @ ''.''" x]
  by (simp add: unlocalizeButtonId_def add.commute)

text \<open>
  C1. For a route \<open>r\<close> and a local id \<open>x\<close> with no \<^verbatim>\<open>'.'\<close> in it, the qualified id the
  template literal builds is \<^verbatim>\<open>r + "." + x\<close>; the route read back from it (everything
  before its last dot) is \<open>r\<close>, and the class registered as \<open>r\<close> decodes it to \<open>x\<close> by
  dropping \<open>length r + 1\<close> characters; so that class dispatches the event.
\<close>

theorem codec_round_trip:
  assumes "CHR ''.'' \<notin> set x"
      and "route (classes w cls) = r"
  shows "qualifiedId r (JStr x) = Inr (r @ ''.'' @ x)
       \<and> buttonRoute (r @ ''.'' @ x) = r
       \<and> unlocalizeButtonId cls (r @ ''.'' @ x) w = x
       \<and> shouldDispatchButtonPressEvent cls (r @ ''.'' @ x) w"
proof -
  have q: "qualifiedId r (JStr x) = Inr (r @ ''.'' @ x)"
    by (simp add: qualifiedId_def)
  have b: "buttonRoute (r @ ''.'' @ x) = r"
    using assms(1) by (rule buttonRoute_qualified)
  have u: "unlocalizeButtonId cls (r @ ''.'' @ x) w = x"
    using assms(2) by (rule unlocalize_qualified)
  have "shouldDispatchButtonPressEvent cls (r @ ''.'' @ x) w"
    unfolding shouldDispatchButtonPressEvent_def getRegisteredRoute_def b
    using assms(2) by simp
  with q b u show ?thesis
    by (intro conjI)
qed

theorem codec_round_trip_witness:
  "CHR ''.'' \<notin> set ''save''
   \<and> route (classes worldAB 0) = ''A''
   \<and> qualifiedId ''A'' (JStr ''save'') = Inr ''A.save''
   \<and> buttonRoute ''A.save'' = ''A''
   \<and> unlocalizeButtonId 0 ''A.save'' worldAB = ''save''
   \<and> shouldDispatchButtonPressEvent 0 ''A.save'' worldAB"
  using codec_round_trip [of "''save''" worldAB 0 "''A''"]
  by (simp add: worldAB_def)

section \<open>Dispatch of button-press events\<close>

lemma buttonRoute_A_save: "buttonRoute ''A.save'' = ''A''"
  by (simp add: buttonRoute_def substring_def Let_def)

text \<open>
  C2. Two classes registered as \<^verbatim>\<open>"A"\<close> and \<^verbatim>\<open>"B"\<close>, each with an instance whose listener
  is subscribed: the event \<^verbatim>\<open>"A.save"\<close> calls the handler of the instance of \<^verbatim>\<open>"A"\<close> (its
  own method, else the static of its class) with the local id \<^verbatim>\<open>"save"\<close>, and the listener
  of the instance of \<^verbatim>\<open>"B"\<close> calls nothing.
\<close>

theorem dispatch_only_owner:
  assumes "getRegisteredRoute (constructor (instances w a)) w = ''A''"
      and "getRegisteredRoute (constructor (instances w b)) w = ''B''"
      and "listeners w = [(ha, a), (hb, b)]"
  shows "emitNavButtonClick ''A.save'' w =
           (case prototype_onNavButtonPress (classes w (constructor (instances w a))) of
              Some h \<Rightarrow> [Invoke h a ''save'']
            | None \<Rightarrow>
                (case onNavButtonPress (classes w (constructor (instances w a))) of
                   Some h \<Rightarrow> [Invoke h a ''save'']
                 | None \<Rightarrow> []))
       \<and> handleNavButtonPress b ''A.save'' w = None"
  using assms
  by (auto simp: emitNavButtonClick_def handleNavButtonPress_def
         shouldDispatchButtonPressEvent_def buttonRoute_A_save unlocalizeButtonId_def
         getRegisteredRoute_def substring_def Let_def split: option.splits)

theorem dispatch_only_owner_witness:
  "getRegisteredRoute (constructor (instances worldAB 0)) worldAB = ''A''
   \<and> getRegisteredRoute (constructor (instances worldAB 1)) worldAB = ''B''
   \<and> listeners worldAB = [(0, 0), (1, 1)]
   \<and> emitNavButtonClick ''A.save'' worldAB = [Invoke defaultOnNavButtonPress 0 ''save'']
   \<and> handleNavButtonPress 1 ''A.save'' worldAB = None"
  using dispatch_only_owner [of worldAB 0 1 0 1]
  by (simp add: worldAB_def getRegisteredRoute_def Component_def)

section \<open>Subscription of the listener\<close>

lemma Component_new_subscribes:
  assumes "Component_new H cls props0 w = (Inr this, w')"
  shows "listeners w' = listeners w @ [(next_handle w, this)]
       \<and> this = next_instance w
       \<and> this_headerListener (instances w' this) = Some (next_handle w)
       \<and> classes w' = classes w"
  using assms
  by (auto simp: Component_new_def Let_def resetNavigationBar_def updateNavigationBar_def
       split: sum.splits option.splits if_splits prod.splits)

text \<open>
  C3. The claim is that the handle is stored on the class and that a class never has more
  than one subscription. The constructor tests and sets \<^verbatim>\<open>this.headerListener\<close>, a property
  of the instance: building two instances of one class subscribes two listeners, each
  instance holds its own handle, and the static \<^verbatim>\<open>headerListener\<close> of the class is still
  undefined.
\<close>

theorem two_instances_two_listeners:
  "(case Component_new host0 0 (JObj []) world0 of
      (r1, w1) \<Rightarrow>
        (case Component_new host0 0 (JObj []) w1 of
           (r2, w2) \<Rightarrow>
             r1 = Inr 0 \<and> r2 = Inr 1
             \<and> listeners w2 = [(0, 0), (1, 1)]
             \<and> this_headerListener (instances w2 0) = Some 0
             \<and> this_headerListener (instances w2 1) = Some 1
             \<and> headerListener (classes w2 0) = None))"
  by (simp add: Component_new_def world0_def host0_def Component_def member_def Let_def
      resetNavigationBar_def updateNavigationBar_def getNavigationBar_def js_or_def
      localizeNavigationBar_def localizeButtons_def localizeLeftButton_def objectRest_def
      lookupProp_def)

section \<open>The checks of the navigation gateway\<close>

lemma checkInternal_no_navigator:
  "\<not> navTruthy (getAppNavigator cls w) \<or> \<not> instanceofAppNavigator (getAppNavigator cls w) \<Longrightarrow>
   checkInternal cls screenName w = Inl invalidAppNavigator"
  by (auto simp: checkInternal_def)

text \<open>
  C4, as the code has it. When no navigator is attached, and when the attached value is
  not an \<^verbatim>\<open>AppNavigator\<close>, \<^verbatim>\<open>navigateInternal\<close> and \<^verbatim>\<open>backTo\<close> throw the one error
  \<^verbatim>\<open>errors.invalidAppNavigator\<close> and change nothing.
\<close>

theorem gateway_navigator_error:
  assumes "\<not> navTruthy (getAppNavigator (constructor (instances w this)) w)
         \<or> \<not> instanceofAppNavigator (getAppNavigator (constructor (instances w this)) w)"
  shows "navigateInternal H this screenName jsonPayload w = (Inl invalidAppNavigator, w)
       \<and> backTo this screenName w = (Inl invalidAppNavigator, w)"
  using checkInternal_no_navigator [OF assms]
  by (simp add: navigateInternal_def backTo_def)

theorem gateway_navigator_error_witness:
  "\<not> instanceofAppNavigator
       (getAppNavigator (constructor (instances (setAppNavigator 0 NavForeign world0) 0))
          (setAppNavigator 0 NavForeign world0))
   \<and> navigateInternal host0 0 (JStr ''home'') JUndefined (setAppNavigator 0 NavForeign world0)
       = (Inl invalidAppNavigator, setAppNavigator 0 NavForeign world0)
   \<and> backTo 0 (JStr ''home'') (setAppNavigator 0 NavForeign world0)
       = (Inl invalidAppNavigator, setAppNavigator 0 NavForeign world0)"
  using gateway_navigator_error
          [of "setAppNavigator 0 NavForeign world0" 0 host0 "JStr ''home''" JUndefined]
  by (simp add: getAppNavigator_def setAppNavigator_def world0_def)

text \<open>
  C4, as stated, asks for two distinct errors. With no navigator and with a foreign object
  attached, \<^verbatim>\<open>navigateInternal\<close> throws the same error.
\<close>

theorem gateway_errors_distinct_counterexample:
  "\<not> (fst (navigateInternal host0 0 (JStr ''home'') JUndefined
              (setAppNavigator 0 NavFalsy world0))
      \<noteq> fst (navigateInternal host0 0 (JStr ''home'') JUndefined
              (setAppNavigator 0 NavForeign world0)))"
  by (simp add: navigateInternal_def checkInternal_def getAppNavigator_def
      setAppNavigator_def world0_def)

text \<open>
  C5. With an \<^verbatim>\<open>AppNavigator\<close> attached whose \<^verbatim>\<open>screens\<close> is absent or has no key,
  \<^verbatim>\<open>navigateInternal\<close> throws \<^verbatim>\<open>errors.noValidScreens\<close> and the world is as before: no
  request was sent and nothing was written.
\<close>

theorem empty_registry_fails_first:
  assumes "getAppNavigator (constructor (instances w this)) w = NavApp scr"
      and "scr = None \<or> scr = Some []"
  shows "navigateInternal H this screenName jsonPayload w = (Inl noValidScreens, w)"
  using assms by (auto simp: navigateInternal_def checkInternal_def)

theorem empty_registry_fails_first_witness:
  "getAppNavigator (constructor (instances (setAppNavigator 0 (NavApp (Some [])) world0) 0))
      (setAppNavigator 0 (NavApp (Some [])) world0) = NavApp (Some [])
   \<and> navigateInternal host0 0 (JStr ''home'') (JObj [])
        (setAppNavigator 0 (NavApp (Some [])) world0)
       = (Inl noValidScreens, setAppNavigator 0 (NavApp (Some [])) world0)
   \<and> requests (setAppNavigator 0 (NavApp (Some [])) world0) = []"
  using empty_registry_fails_first
          [of "setAppNavigator 0 (NavApp (Some [])) world0" 0 "Some []" host0
              "JStr ''home''" "JObj []"]
  by (simp add: getAppNavigator_def setAppNavigator_def world0_def)

section \<open>The localizer\<close>

lemma localizeButton_button:
  "isButton b \<Longrightarrow> localizeButton r b = Inr (localizedButton r b)"
  by (cases b; cases "getProp b ''id''")
     (simp_all add: isButton_def localizeButton_def member_def qualifiedId_def
        localizedButton_def)

lemma mapE_localizeButton:
  "list_all isButton bs \<Longrightarrow> mapE (localizeButton r) bs = Inr (map (localizedButton r) bs)"
  by (induction bs) (simp_all add: localizeButton_button)

lemma localizeButtons_ok:
  "isButtons (getProp b ''buttons'') \<Longrightarrow>
   localizeButtons r b =
     Inr (case getProp b ''buttons'' of
            JArr bs \<Rightarrow> JArr (map (localizedButton r) bs)
          | _ \<Rightarrow> JUndefined)"
  by (cases "getProp b ''buttons''") (simp_all add: localizeButtons_def mapE_localizeButton)

lemma localizeLeftButton_ok:
  assumes "isLeftButton (getProp b ''leftButton'')"
  shows "localizeLeftButton r b = Inr (localizedLeftButton r (getProp b ''leftButton''))"
proof (cases "getProp b ''leftButton''")
  case (JObj lps)
  with assms have "isString (lookupProp lps ''id'') \<or> nullish (lookupProp lps ''id'')"
    by simp
  then show ?thesis
    by (cases "lookupProp lps ''id''")
       (simp_all add: localizeLeftButton_def localizedLeftButton_def JObj qualifiedId_def)
qed (use assms in \<open>simp_all add: localizeLeftButton_def localizedLeftButton_def\<close>)

lemma localizeNavigationBar_ok:
  assumes "isNavigationBar b"
  shows "localizeNavigationBar r b =
     Inr (JObj (AList.update ''buttons''
                  (case getProp b ''buttons'' of
                     JArr bs \<Rightarrow> JArr (map (localizedButton r) bs)
                   | _ \<Rightarrow> JUndefined)
                  (AList.update ''leftButton''
                     (localizedLeftButton r (getProp b ''leftButton'')) (ownProps b))))"
proof -
  from assms obtain ps where b: "b = JObj ps"
    by (cases b) (simp_all add: isNavigationBar_def)
  from assms have bs: "isButtons (getProp b ''buttons'')"
      and lb: "isLeftButton (getProp b ''leftButton'')"
    by (simp_all add: isNavigationBar_def)
  have "truthy b"
    by (simp add: b)
  then show ?thesis
    by (simp add: localizeNavigationBar_def localizeButtons_ok [OF bs]
        localizeLeftButton_ok [OF lb])
qed

lemma localizeLeftButton_withoutOverlay:
  "isObject b \<Longrightarrow> localizeLeftButton r (withoutOverlay b) = localizeLeftButton r b"
  by (cases b) (simp_all add: localizeLeftButton_def withoutOverlay_def lookupProp_delete)

lemma localizeButtons_withoutOverlay:
  "isObject b \<Longrightarrow> localizeButtons r (withoutOverlay b) = localizeButtons r b"
  by (cases b) (simp_all add: localizeButtons_def withoutOverlay_def lookupProp_delete)

lemma localize_withoutOverlay:
  assumes "isObject b"
  shows "localizeNavigationBar r (withoutOverlay b) =
         (case localizeNavigationBar r b of
            Inl e \<Rightarrow> Inl e
          | Inr loc \<Rightarrow> objectRest ''overlay'' loc)"
proof -
  from assms obtain ps where b: "b = JObj ps"
    by (cases b) simp_all
  show ?thesis
    unfolding localizeNavigationBar_def localizeButtons_withoutOverlay [OF assms]
      localizeLeftButton_withoutOverlay [OF assms]
    by (auto simp add: b withoutOverlay_def objectRest_def delete_update split: sum.splits)
qed

text \<open>
  An \<^verbatim>\<open>id\<close> that cannot be converted, such as the object \<^verbatim>\<open>{toString: 1}\<close>: the template
  literal throws, so does the localizer, and \<^verbatim>\<open>updateNavigationBar\<close> sends nothing.
\<close>

lemma toString_own_toString: "toString (JObj [(''toString'', JNum ''1'')]) = Inl TypeError"
  by simp

lemma localize_unconvertible_id:
  "localizeNavigationBar r
     (JObj [(''buttons'', JArr [JObj [(''id'', JObj [(''toString'', JNum ''1'')])]])])
   = Inl TypeError"
  by (simp add: localizeNavigationBar_def localizeLeftButton_def localizeButtons_def
      localizeButton_def member_def qualifiedId_def lookupProp_def)

lemma update_unconvertible_id:
  "updateNavigationBar this
     (JObj [(''buttons'', JArr [JObj [(''id'', JObj [(''toString'', JNum ''1'')])]])]) w
   = (Inl TypeError, w)"
  by (simp add: updateNavigationBar_def localize_unconvertible_id)

text \<open>
  C6. For a navigation bar \<open>b\<close> and the route \<open>r\<close> of the class of \<^verbatim>\<open>this\<close>,
  \<^verbatim>\<open>updateNavigationBar(b)\<close> sends exactly one update, with the payload
  \<^verbatim>\<open>{path: r, navigationBar: bar}\<close>, where \<open>bar\<close> is the localized form of \<open>b\<close> without its
  \<^verbatim>\<open>overlay\<close>; \<open>bar\<close> has no \<^verbatim>\<open>overlay\<close> field, and it is also what the code computes:
  \<open>b\<close> localized, then \<^verbatim>\<open>overlay\<close> removed.
\<close>

theorem update_payload_strips_overlay:
  assumes "isNavigationBar b"
      and "route (classes w (constructor (instances w this))) = r"
  shows "\<exists>bar loc. localizeNavigationBar r (withoutOverlay b) = Inr bar
           \<and> localizeNavigationBar r b = Inr loc
           \<and> withoutOverlay loc = bar
           \<and> updateNavigationBar this b w =
               (Inr (), w\<lparr>requests := requests w @ [Update (updatePayload r bar)]\<rparr>)
           \<and> ''overlay'' \<notin> fst ` set (ownProps bar)"
proof -
  from assms(1) have obj: "isObject b"
    by (simp add: isNavigationBar_def)
  obtain loc where loc: "localizeNavigationBar r b = Inr (JObj loc)"
    using localizeNavigationBar_ok [OF assms(1)] by blast
  have rest: "objectRest ''overlay'' (JObj loc) = Inr (withoutOverlay (JObj loc))"
    by (simp add: objectRest_def withoutOverlay_def)
  have "localizeNavigationBar r (withoutOverlay b) = Inr (withoutOverlay (JObj loc))"
    by (simp add: localize_withoutOverlay [OF obj] loc rest)
  moreover have "updateNavigationBar this b w =
      (Inr (), w\<lparr>requests := requests w @
          [Update (updatePayload r (withoutOverlay (JObj loc)))]\<rparr>)"
    using assms(2) by (simp add: updateNavigationBar_def loc rest updatePayload_def)
  moreover have "''overlay'' \<notin> fst ` set (ownProps (withoutOverlay (JObj loc)))"
    by (simp add: withoutOverlay_def delete_notin_dom)
  ultimately show ?thesis
    using loc by blast
qed

theorem update_payload_strips_overlay_witness:
  "isNavigationBar sampleBar
   \<and> route (classes worldAB (constructor (instances worldAB 0))) = ''A''
   \<and> getProp sampleBar ''overlay'' = JBool True
   \<and> (\<exists>bar. localizeNavigationBar ''A'' (withoutOverlay sampleBar) = Inr bar
         \<and> requests (snd (updateNavigationBar 0 sampleBar worldAB))
             = [Update (updatePayload ''A'' bar)]
         \<and> getProp bar ''overlay'' = JUndefined
         \<and> getProp bar ''title'' = JStr ''Cart'')"
proof -
  have b: "isNavigationBar sampleBar"
    by (simp add: isNavigationBar_def isButton_def sampleBar_def sampleButton_def
        lookupProp_def)
  have r: "route (classes worldAB (constructor (instances worldAB 0))) = ''A''"
    by (simp add: worldAB_def)
  obtain bar where bar: "localizeNavigationBar ''A'' (withoutOverlay sampleBar) = Inr bar"
      and sent: "updateNavigationBar 0 sampleBar worldAB =
        (Inr (), worldAB\<lparr>requests := requests worldAB @ [Update (updatePayload ''A'' bar)]\<rparr>)"
    using update_payload_strips_overlay [OF b r] by blast
  have "localizeNavigationBar ''A'' (withoutOverlay sampleBar) =
      Inr (JObj [(''title'', JStr ''Cart''),
                 (''leftButton'', JObj [(''icon'', JStr ''back''), (''id'', JUndefined)]),
                 (''buttons'',
                    JArr [JObj [(''icon'', JStr ''x''), (''id'', JStr ''A.exit''),
                                (''location'', JStr ''right'')]])])"
    by (simp add: localizeNavigationBar_def withoutOverlay_def sampleBar_def sampleButton_def
        localizeButtons_def localizeLeftButton_def localizeButton_def member_def
        qualifiedId_def lookupProp_def)
  with bar have "getProp bar ''overlay'' = JUndefined" and "getProp bar ''title'' = JStr ''Cart''"
    by (auto simp: lookupProp_def)
  moreover have "getProp sampleBar ''overlay'' = JBool True"
    by (simp add: sampleBar_def lookupProp_def)
  moreover have "requests (snd (updateNavigationBar 0 sampleBar worldAB))
      = [Update (updatePayload ''A'' bar)]"
    by (simp add: sent) (simp add: worldAB_def)
  ultimately show ?thesis
    using b r bar by blast
qed

text \<open>
  C7. For a navigation bar whose \<^verbatim>\<open>leftButton\<close> is an object with no \<^verbatim>\<open>id\<close>, the localized
  bar has a \<^verbatim>\<open>leftButton\<close> object whose \<^verbatim>\<open>id\<close> is undefined: no qualified id is made up
  for it.
\<close>

theorem left_button_without_id:
  assumes "isNavigationBar b"
      and "isObject (getProp b ''leftButton'')"
      and "getProp (getProp b ''leftButton'') ''id'' = JUndefined"
  shows "\<exists>res. localizeNavigationBar r b = Inr res
             \<and> isObject (getProp res ''leftButton'')
             \<and> getProp (getProp res ''leftButton'') ''id'' = JUndefined"
proof -
  from assms(2) obtain lps where lb: "getProp b ''leftButton'' = JObj lps"
    by (cases "getProp b ''leftButton''") simp_all
  have left: "localizedLeftButton r (getProp b ''leftButton'') =
                JObj (AList.update ''id'' JUndefined lps)"
    using assms(3) by (simp add: localizedLeftButton_def lb)
  show ?thesis
    by (simp add: localizeNavigationBar_ok [OF assms(1)] lookupProp_update left)
qed

theorem left_button_without_id_witness:
  "isNavigationBar sampleBar
   \<and> getProp sampleBar ''leftButton'' = JObj [(''icon'', JStr ''back'')]
   \<and> (\<exists>res. localizeNavigationBar ''cart'' sampleBar = Inr res
          \<and> getProp res ''leftButton'' = JObj [(''icon'', JStr ''back''), (''id'', JUndefined)]
          \<and> getProp (getProp res ''leftButton'') ''id'' = JUndefined)"
proof -
  have b: "isNavigationBar sampleBar"
    by (simp add: isNavigationBar_def isButton_def sampleBar_def sampleButton_def
        lookupProp_def)
  have lb: "getProp sampleBar ''leftButton'' = JObj [(''icon'', JStr ''back'')]"
    by (simp add: sampleBar_def lookupProp_def)
  have "\<exists>res. localizeNavigationBar ''cart'' sampleBar = Inr res
          \<and> isObject (getProp res ''leftButton'')
          \<and> getProp (getProp res ''leftButton'') ''id'' = JUndefined"
    using left_button_without_id [OF b, of "''cart''"] by (simp add: lb lookupProp_def)
  moreover have "localizeNavigationBar ''cart'' sampleBar =
      Inr (JObj [(''title'', JStr ''Cart''), (''overlay'', JBool True),
                 (''leftButton'', JObj [(''icon'', JStr ''back''), (''id'', JUndefined)]),
                 (''buttons'',
                    JArr [JObj [(''icon'', JStr ''x''), (''id'', JStr ''cart.exit''),
                                (''location'', JStr ''right'')]])])"
    by (simp add: localizeNavigationBar_def sampleBar_def sampleButton_def localizeButtons_def
        localizeLeftButton_def localizeButton_def member_def qualifiedId_def lookupProp_def)
  ultimately show ?thesis
    using b lb by (auto simp: lookupProp_def)
qed

text \<open>
  C8. For a navigation bar whose \<^verbatim>\<open>buttons\<close> is an array and an index \<open>i\<close> into it, the
  localized bar has a \<^verbatim>\<open>buttons\<close> array of the same length whose \<open>i\<close>-th button has
  \<^verbatim>\<open>location\<close> \<^verbatim>\<open>"right"\<close>, has as \<^verbatim>\<open>id\<close> the qualified id the template literal builds from
  the \<^verbatim>\<open>id\<close> of the \<open>i\<close>-th button given, and agrees with that button on every other
  property; it has no property beyond \<^verbatim>\<open>location\<close>, \<^verbatim>\<open>id\<close> and those of the button given.
\<close>

theorem right_buttons_localized:
  assumes "isNavigationBar b"
      and "getProp b ''buttons'' = JArr bs"
      and "i < length bs"
  shows "\<exists>res bs' q. localizeNavigationBar r b = Inr res
           \<and> getProp res ''buttons'' = JArr bs'
           \<and> length bs' = length bs
           \<and> isObject (bs' ! i)
           \<and> getProp (bs' ! i) ''location'' = JStr ''right''
           \<and> qualifiedId r (getProp (bs ! i) ''id'') = Inr q
           \<and> getProp (bs' ! i) ''id'' = JStr q
           \<and> (\<forall>k. k \<noteq> ''location'' \<and> k \<noteq> ''id'' \<longrightarrow>
                  getProp (bs' ! i) k = getProp (bs ! i) k)
           \<and> fst ` set (ownProps (bs' ! i)) =
               {''location'', ''id''} \<union> fst ` set (ownProps (bs ! i))"
proof -
  from assms have "list_all isButton bs"
    by (simp add: isNavigationBar_def)
  with assms(3) have "isButton (bs ! i)"
    by (simp add: list_all_length)
  then obtain ps x where bi: "bs ! i = JObj ps" and x: "lookupProp ps ''id'' = JStr x"
    by (cases "bs ! i"; cases "getProp (bs ! i) ''id''") (simp_all add: isButton_def)
  have q: "qualifiedId r (getProp (bs ! i) ''id'') = Inr (r @ ''.'' @ x)"
    by (simp add: bi x qualifiedId_def)
  have props: "lookupProp (AList.update ''id'' v (AList.update ''location'' v' ps)) k =
        (if k = ''id'' then v else if k = ''location'' then v' else lookupProp ps k)" for v v' k
    by (simp add: lookupProp_update)
  let ?bs' = "map (localizedButton r) bs"
  have res: "localizeNavigationBar r b =
     Inr (JObj (AList.update ''buttons'' (JArr ?bs')
                  (AList.update ''leftButton''
                     (localizedLeftButton r (getProp b ''leftButton'')) (ownProps b))))"
    by (simp add: localizeNavigationBar_ok [OF assms(1)] assms(2))
  have nth: "?bs' ! i = JObj (AList.update ''id'' (JStr (r @ ''.'' @ x))
                            (AList.update ''location'' (JStr ''right'') ps))"
    using assms(3) by (simp add: localizedButton_def bi x)
  have 1: "getProp (JObj (AList.update ''buttons'' (JArr ?bs')
                  (AList.update ''leftButton''
                     (localizedLeftButton r (getProp b ''leftButton'')) (ownProps b))))
             ''buttons'' = JArr ?bs'"
    by (simp add: lookupProp_update)
  have 2: "length ?bs' = length bs"
    by simp
  have 3: "isObject (?bs' ! i)"
    by (simp add: nth)
  have 4: "getProp (?bs' ! i) ''location'' = JStr ''right''"
    by (simp add: nth props)
  have 5: "getProp (?bs' ! i) ''id'' = JStr (r @ ''.'' @ x)"
    by (simp add: nth props)
  have 6: "\<forall>k. k \<noteq> ''location'' \<and> k \<noteq> ''id'' \<longrightarrow> getProp (?bs' ! i) k = getProp (bs ! i) k"
    by (simp add: nth props bi)
  have 7: "fst ` set (ownProps (?bs' ! i)) = {''location'', ''id''} \<union> fst ` set (ownProps (bs ! i))"
    by (auto simp add: nth bi dom_update)
  from res 1 2 3 4 q 5 6 7 show ?thesis
    by blast
qed

theorem right_buttons_localized_witness:
  "isNavigationBar sampleBar
   \<and> getProp sampleBar ''buttons'' = JArr [sampleButton]
   \<and> (\<exists>res bs'. localizeNavigationBar ''cart'' sampleBar = Inr res
          \<and> getProp res ''buttons'' = JArr bs'
          \<and> length bs' = 1
          \<and> getProp (bs' ! 0) ''location'' = JStr ''right''
          \<and> getProp (bs' ! 0) ''id'' = JStr ''cart.exit''
          \<and> getProp (bs' ! 0) ''icon'' = JStr ''x'')"
proof -
  have b: "isNavigationBar sampleBar"
    by (simp add: isNavigationBar_def isButton_def sampleBar_def sampleButton_def
        lookupProp_def)
  have bs: "getProp sampleBar ''buttons'' = JArr [sampleButton]"
    by (simp add: sampleBar_def lookupProp_def)
  have i: "0 < length [sampleButton]"
    by simp
  from right_buttons_localized [OF b bs i, of "''cart''"]
  obtain res bs' q where res: "localizeNavigationBar ''cart'' sampleBar = Inr res"
    and arr: "getProp res ''buttons'' = JArr bs'"
    and len: "length bs' = length [sampleButton]"
    and loc: "getProp (bs' ! 0) ''location'' = JStr ''right''"
    and q: "qualifiedId ''cart'' (getProp ([sampleButton] ! 0) ''id'') = Inr q"
    and qid: "getProp (bs' ! 0) ''id'' = JStr q"
    and others: "\<forall>k. k \<noteq> ''location'' \<and> k \<noteq> ''id'' \<longrightarrow>
                  getProp (bs' ! 0) k = getProp ([sampleButton] ! 0) k"
    by (elim exE conjE) (rule that)
  from q have "q = ''cart.exit''"
    by (simp add: sampleButton_def lookupProp_def qualifiedId_def)
  with qid have "getProp (bs' ! 0) ''id'' = JStr ''cart.exit''"
    by simp
  moreover have "getProp (bs' ! 0) ''icon'' = getProp ([sampleButton] ! 0) ''icon''"
    using others by simp
  then have "getProp (bs' ! 0) ''icon'' = JStr ''x''"
    by (simp add: sampleButton_def lookupProp_def)
  moreover have "length bs' = 1"
    using len by simp
  ultimately show ?thesis
    using b bs res arr loc by blast
qed

section \<open>Registration of the route\<close>

lemma setRegisteredRoute_registered:
  "route (classes w cls) \<noteq> [] \<Longrightarrow>
   route (classes (setRegisteredRoute c r' w) cls) = route (classes w cls)"
  by (auto simp add: setRegisteredRoute_def)

lemma fold_setRegisteredRoute_registered:
  "route (classes w cls) \<noteq> [] \<Longrightarrow>
   route (classes (fold (\<lambda>call. setRegisteredRoute (fst call) (snd call)) calls w) cls)
     = route (classes w cls)"
  by (induction calls arbitrary: w) (simp_all add: setRegisteredRoute_registered)

text \<open>
  C9. For a class with no route yet and a non-empty route \<open>r\<close>: \<^verbatim>\<open>setRegisteredRoute(r)\<close>
  registers \<open>r\<close>; after any further calls of \<^verbatim>\<open>setRegisteredRoute\<close> (on this class or on
  others, with any routes) \<^verbatim>\<open>getRegisteredRoute()\<close> still returns \<open>r\<close>; and a further call on
  this class changes nothing but the console, to which it adds one warning.
\<close>

theorem route_set_once:
  assumes "route (classes w cls) = []"
      and "r \<noteq> []"
  shows "getRegisteredRoute cls (setRegisteredRoute cls r w) = r
       \<and> getRegisteredRoute cls
           (fold (\<lambda>call. setRegisteredRoute (fst call) (snd call)) calls
              (setRegisteredRoute cls r w)) = r
       \<and> (\<forall>w' r'. getRegisteredRoute cls w' = r \<longrightarrow>
             (\<exists>warning. setRegisteredRoute cls r' w' = w'\<lparr>console := console w' @ [warning]\<rparr>))"
proof -
  have 1: "getRegisteredRoute cls (setRegisteredRoute cls r w) = r"
    using assms by (simp add: getRegisteredRoute_def setRegisteredRoute_def)
  have 2: "getRegisteredRoute cls
           (fold (\<lambda>call. setRegisteredRoute (fst call) (snd call)) calls
              (setRegisteredRoute cls r w)) = r"
    using 1 assms(2) fold_setRegisteredRoute_registered [of "setRegisteredRoute cls r w" cls calls]
    by (simp add: getRegisteredRoute_def)
  have 3: "\<exists>warning. setRegisteredRoute cls r' w' = w'\<lparr>console := console w' @ [warning]\<rparr>"
    if "getRegisteredRoute cls w' = r" for w' r'
    using that assms(2) by (auto simp add: getRegisteredRoute_def setRegisteredRoute_def)
  from 1 2 3 show ?thesis
    by blast
qed

theorem route_set_once_witness:
  "route (classes world0 0) = []
   \<and> ''checkout'' \<noteq> []
   \<and> getRegisteredRoute 0 (setRegisteredRoute 0 ''checkout'' world0) = ''checkout''
   \<and> getRegisteredRoute 0
        (fold (\<lambda>call. setRegisteredRoute (fst call) (snd call))
           [(0, ''cart''), (1, ''home''), (0, '''')]
           (setRegisteredRoute 0 ''checkout'' world0)) = ''checkout''
   \<and> length (console (setRegisteredRoute 0 ''cart'' (setRegisteredRoute 0 ''checkout'' world0)))
       = 1"
proof -
  have u: "route (classes world0 0) = []"
    by (simp add: world0_def Component_def)
  have n: "''checkout'' \<noteq> []"
    by simp
  note t = route_set_once [OF u n, of "[(0, ''cart''), (1, ''home''), (0, '''')]"]
  from t have g: "getRegisteredRoute 0 (setRegisteredRoute 0 ''checkout'' world0) = ''checkout''"
    by blast
  from t have f: "getRegisteredRoute 0
        (fold (\<lambda>call. setRegisteredRoute (fst call) (snd call))
           [(0, ''cart''), (1, ''home''), (0, '''')]
           (setRegisteredRoute 0 ''checkout'' world0)) = ''checkout''"
    by blast
  from t g obtain warning where
    "setRegisteredRoute 0 ''cart'' (setRegisteredRoute 0 ''checkout'' world0) =
       (setRegisteredRoute 0 ''checkout'' world0)
         \<lparr>console := console (setRegisteredRoute 0 ''checkout'' world0) @ [warning]\<rparr>"
    by blast
  then have "length (console (setRegisteredRoute 0 ''cart''
                 (setRegisteredRoute 0 ''checkout'' world0))) =
             Suc (length (console (setRegisteredRoute 0 ''checkout'' world0)))"
    by simp
  also have "console (setRegisteredRoute 0 ''checkout'' world0) = []"
    by (simp add: setRegisteredRoute_def world0_def Component_def)
  finally show ?thesis
    using u n g f by simp
qed

section \<open>The localizer leaves its argument alone\<close>

lemma keeps_iff:
  "keeps h h' \<longleftrightarrow>
     next_free h \<le> next_free h' \<and> (\<forall>a. a < next_free h \<longrightarrow> cells h' a = cells h a)"
  by (auto simp: keeps_def list_all_iff)

lemma keeps_refl: "keeps h h"
  by (simp add: keeps_iff)

lemma keeps_trans: "keeps h1 h2 \<Longrightarrow> keeps h2 h3 \<Longrightarrow> keeps h1 h3"
  by (auto simp: keeps_iff)

lemma alloc_keeps:
  "alloc c h = (a, h') \<Longrightarrow> keeps h h' \<and> a = next_free h \<and> next_free h' = Suc (next_free h)"
  by (auto simp: alloc_def keeps_iff)

lemma hlocalizeButton_keeps:
  "hlocalizeButton str r h b = (res, h') \<Longrightarrow> keeps h h'"
  by (auto simp: hlocalizeButton_def keeps_refl split: sum.splits prod.splits dest: alloc_keeps)

lemma hmapE_keeps:
  "(\<And>h x res h'. f h x = (res, h') \<Longrightarrow> keeps h h') \<Longrightarrow>
   hmapE f h xs = (res, h') \<Longrightarrow> keeps h h'"
proof (induction xs arbitrary: h res h')
  case Nil
  then show ?case by (simp add: keeps_refl)
next
  case (Cons x xs)
  obtain r1 h1 where f: "f h x = (r1, h1)"
    by (cases "f h x")
  have k1: "keeps h h1"
    using Cons.prems(1) f by blast
  show ?case
  proof (cases r1)
    case (Inl e)
    with Cons.prems(2) f k1 show ?thesis by simp
  next
    case (Inr y)
    obtain r2 h2 where m: "hmapE f h1 xs = (r2, h2)"
      by (cases "hmapE f h1 xs")
    have "keeps h1 h2"
      using Cons.IH [OF Cons.prems(1) m] .
    moreover have "h' = h2"
      using Cons.prems(2) f Inr m by (cases r2) simp_all
    ultimately show ?thesis
      using k1 keeps_trans by blast
  qed
qed

lemma hlocalizeLeftButton_keeps:
  "hlocalizeLeftButton str r h b = (res, h') \<Longrightarrow> keeps h h'"
  by (auto simp: hlocalizeLeftButton_def Let_def keeps_refl
      split: if_splits sum.splits prod.splits dest: alloc_keeps)

lemma hlocalizeButtons_keeps:
  assumes "hlocalizeButtons str r h b = (res, h')"
  shows "keeps h h'"
proof (cases "htruthy (hgetProp h b ''buttons'')")
  case False
  with assms show ?thesis
    by (simp add: hlocalizeButtons_def keeps_refl)
next
  case True
  show ?thesis
  proof (cases "hgetProp h b ''buttons''")
    case (HRef a)
    show ?thesis
    proof (cases "cells h a")
      case (HObject ps)
      with assms HRef show ?thesis
        by (simp add: hlocalizeButtons_def keeps_refl)
    next
      case (HArray bs)
      obtain r1 h1 where m: "hmapE (hlocalizeButton str r) h bs = (r1, h1)"
        by (cases "hmapE (hlocalizeButton str r) h bs")
      have k1: "keeps h h1"
        using hmapE_keeps [OF _ m] hlocalizeButton_keeps by blast
      show ?thesis
      proof (cases r1)
        case (Inl e)
        with assms HRef HArray m k1 show ?thesis
          by (simp add: hlocalizeButtons_def)
      next
        case (Inr bs')
        with assms HRef HArray m have "\<exists>a'. alloc (HArray bs') h1 = (a', h')"
          by (auto simp: hlocalizeButtons_def split: prod.splits)
        then have "keeps h1 h'"
          using alloc_keeps by blast
        with k1 show ?thesis
          using keeps_trans by blast
      qed
    qed
  qed (use assms True in \<open>simp_all add: hlocalizeButtons_def keeps_refl\<close>)
qed

text \<open>
  C10. Whatever the route, the argument and the store, after
  \<^verbatim>\<open>_localizeNavigationBar\<close> every cell that was allocated before the call (the bar given,
  its left button, its array of buttons and each button among them) holds what it held
  before, also when the call throws; and a result returned is a reference to a cell
  allocated during the call.
\<close>

theorem localize_builds_fresh:
  "case hlocalizeNavigationBar str r b h of
     (res, h') \<Rightarrow> keeps h h' \<and> (\<forall>v. res = Inr v \<longrightarrow> fresh h h' v)"
proof (cases "htruthy b")
  case False
  then show ?thesis
    by (simp add: hlocalizeNavigationBar_def alloc_def keeps_iff)
next
  case True
  obtain r1 h1 where l: "hlocalizeLeftButton str r h b = (r1, h1)"
    by (cases "hlocalizeLeftButton str r h b")
  have k1: "keeps h h1"
    using hlocalizeLeftButton_keeps [OF l] .
  show ?thesis
  proof (cases r1)
    case (Inl e)
    with True l k1 show ?thesis
      by (simp add: hlocalizeNavigationBar_def)
  next
    case lb: (Inr lb)
    obtain r2 h2 where bs: "hlocalizeButtons str r h1 b = (r2, h2)"
      by (cases "hlocalizeButtons str r h1 b")
    have k2: "keeps h h2"
      using k1 hlocalizeButtons_keeps [OF bs] keeps_trans by blast
    show ?thesis
    proof (cases r2)
      case (Inl e)
      with True l lb bs k2 show ?thesis
        by (simp add: hlocalizeNavigationBar_def)
    next
      case (Inr buttons)
      obtain a h3 where al: "alloc (HObject (AList.update ''buttons'' buttons
           (AList.update ''leftButton'' lb (hownProps h b)))) h2 = (a, h3)"
        by (cases "alloc (HObject (AList.update ''buttons'' buttons
           (AList.update ''leftButton'' lb (hownProps h b)))) h2")
      have res: "hlocalizeNavigationBar str r b h = (Inr (HRef a), h3)"
        using True l lb bs Inr al by (simp add: hlocalizeNavigationBar_def)
      have "keeps h2 h3" and "a = next_free h2" and "next_free h3 = Suc (next_free h2)"
        using alloc_keeps [OF al] by simp_all
      then have "keeps h h3" and "fresh h h3 (HRef a)"
        using k2 by (auto simp: keeps_iff)
      with res show ?thesis by simp
    qed
  qed
qed

theorem localize_builds_fresh_witness:
  "(case hlocalizeNavigationBar sampleStr ''cart'' (HRef 0) sampleHeap of
      (res, h') \<Rightarrow>
        res = Inr (HRef 7)
        \<and> keeps sampleHeap h'
        \<and> fresh sampleHeap h' (HRef 7)
        \<and> cells h' 3 = HObject [(''icon'', HStr ''x''), (''id'', HStr ''exit''),
                                 (''location'', HStr ''left'')]
        \<and> cells h' 5 = HObject [(''icon'', HStr ''x''), (''id'', HStr ''cart.exit''),
                                 (''location'', HStr ''right'')])"
proof -
  obtain res h' where e: "hlocalizeNavigationBar sampleStr ''cart'' (HRef 0) sampleHeap = (res, h')"
    by (cases "hlocalizeNavigationBar sampleStr ''cart'' (HRef 0) sampleHeap")
  have v: "res = Inr (HRef 7)
      \<and> cells h' 3 = HObject [(''icon'', HStr ''x''), (''id'', HStr ''exit''),
                               (''location'', HStr ''left'')]
      \<and> cells h' 5 = HObject [(''icon'', HStr ''x''), (''id'', HStr ''cart.exit''),
                               (''location'', HStr ''right'')]"
    using e
    by (auto simp add: hlocalizeNavigationBar_def sampleHeap_def hlocalizeLeftButton_def
        hlocalizeButtons_def hlocalizeButton_def hqualifiedId_def hmember_def alloc_def
        hlookupProp_def)
  from localize_builds_fresh [where str = sampleStr and r = "''cart''" and b = "HRef 0"
      and h = sampleHeap] e
  have "keeps sampleHeap h'" and "\<forall>v. res = Inr v \<longrightarrow> fresh sampleHeap h' v"
    by simp_all
  with v show ?thesis
    by (simp add: e)
qed

section \<open>The store model agrees with the value model\<close>

lemma rep_JObj:
  "rep h (JObj ps) v \<longleftrightarrow>
     (\<exists>a qs. v = HRef a \<and> a < next_free h \<and> cells h a = HObject qs \<and> repProps h ps qs)"
  by (auto simp: repProps_def split: hval.splits cell.splits)

lemma rep_JArr:
  "rep h (JArr ts) v \<longleftrightarrow>
     (\<exists>a vs. v = HRef a \<and> a < next_free h \<and> cells h a = HArray vs \<and> list_all2 (rep h) ts vs)"
  by (auto split: hval.splits cell.splits)

declare rep.simps(6,7) [simp del]

lemma rep_keeps: "keeps h h' \<Longrightarrow> rep h t v \<Longrightarrow> rep h' t v"
proof (induction t arbitrary: v)
  case (JObj ps)
  from JObj.prems(2) obtain a qs where v: "v = HRef a" and a: "a < next_free h"
      and c: "cells h a = HObject qs" and r: "repProps h ps qs"
    by (auto simp: rep_JObj)
  have "repProps h' ps qs"
    using r JObj.IH JObj.prems(1) unfolding repProps_def
    by (elim list.rel_mono_strong) (auto simp: snds.simps)
  moreover have "a < next_free h'" and "cells h' a = HObject qs"
    using JObj.prems(1) a c by (auto simp: keeps_iff)
  ultimately show ?case
    using v by (auto simp: rep_JObj)
next
  case (JArr ts)
  from JArr.prems(2) obtain a vs where v: "v = HRef a" and a: "a < next_free h"
      and c: "cells h a = HArray vs" and r: "list_all2 (rep h) ts vs"
    by (auto simp: rep_JArr)
  have "list_all2 (rep h') ts vs"
    using r JArr.IH JArr.prems(1)
    by (elim list.rel_mono_strong) auto
  moreover have "a < next_free h'" and "cells h' a = HArray vs"
    using JArr.prems(1) a c by (auto simp: keeps_iff)
  ultimately show ?case
    using v by (auto simp: rep_JArr)
qed simp_all

lemma repProps_keeps: "keeps h h' \<Longrightarrow> repProps h ps qs \<Longrightarrow> repProps h' ps qs"
  unfolding repProps_def by (elim list.rel_mono_strong) (auto intro: rep_keeps)

lemma list_rep_keeps: "keeps h h' \<Longrightarrow> list_all2 (rep h) ts vs \<Longrightarrow> list_all2 (rep h') ts vs"
  by (elim list.rel_mono_strong) (auto intro: rep_keeps)

lemma rep_truthy: "rep h t v \<Longrightarrow> htruthy v = truthy t"
  by (cases t) (auto simp: rep_JObj rep_JArr)

lemma rep_nullish: "rep h t v \<Longrightarrow> hnullish v = nullish t"
  by (cases t) (auto simp: rep_JObj rep_JArr)

lemma repProps_lookup: "repProps h ps qs \<Longrightarrow> rep h (lookupProp ps k) (hlookupProp qs k)"
  unfolding repProps_def
  by (induction ps qs rule: list_all2_induct) (auto simp: lookupProp_def hlookupProp_def)

lemma repProps_indexed: "list_all2 (rep h) ts vs \<Longrightarrow> repProps h (indexed ts) (hindexed vs)"
  unfolding repProps_def indexed_def hindexed_def
  by (auto simp: list_all2_conv_all_nth)

lemma repProps_update:
  "repProps h ps qs \<Longrightarrow> rep h t v \<Longrightarrow> repProps h (AList.update k t ps) (AList.update k v qs)"
  unfolding repProps_def
  by (induction ps qs rule: list_all2_induct) auto

lemma repProps_Nil: "repProps h [] []"
  by (simp add: repProps_def)

lemma rep_ownProps: "rep h t v \<Longrightarrow> repProps h (ownProps t) (hownProps h v)"
proof (cases t)
  case (JStr s)
  assume "rep h t v"
  with JStr have "v = HStr s" by simp
  moreover have "list_all2 (rep h) (map (\<lambda>c. JStr [c]) s) (map (\<lambda>c. HStr [c]) s)"
    by (simp add: list_all2_conv_all_nth)
  ultimately show ?thesis
    using JStr by (simp add: repProps_indexed)
qed (auto simp: rep_JObj rep_JArr repProps_indexed repProps_Nil)

lemma rep_getProp: "rep h t v \<Longrightarrow> rep h (getProp t k) (hgetProp h v k)"
proof (cases t)
  case (JStr s)
  assume "rep h t v"
  with JStr have "v = HStr s" by simp
  moreover have "list_all2 (rep h) (map (\<lambda>c. JStr [c]) s) (map (\<lambda>c. HStr [c]) s)"
    by (simp add: list_all2_conv_all_nth)
  ultimately show ?thesis
    using JStr by (simp add: repProps_indexed repProps_lookup)
next
  case (JArr ts)
  assume "rep h t v"
  with JArr show ?thesis
    by (auto simp: rep_JArr repProps_indexed repProps_lookup dest: list_all2_lengthD)
qed (auto simp: rep_JObj repProps_lookup)

lemma rep_htoString:
  assumes "rendering str"
      and "rep h t v"
  shows "htoString str h v = toString t"
proof (cases v)
  case (HRef a)
  with assms show ?thesis by (simp add: rendering_def)
qed (use assms(2) in \<open>cases t; auto simp: rep_JObj rep_JArr\<close>)+

lemma rep_alloc:
  assumes "repProps h ps qs" and "alloc (HObject qs) h = (a, h')"
  shows "rep h' (JObj ps) (HRef a)"
proof -
  have "keeps h h'" and "a = next_free h" and "next_free h' = Suc (next_free h)"
    using alloc_keeps [OF assms(2)] by simp_all
  moreover have "cells h' a = HObject qs"
    using assms(2) by (auto simp: alloc_def)
  ultimately show ?thesis
    using repProps_keeps [OF _ assms(1)] by (auto simp: rep_JObj)
qed

lemma rep_alloc_array:
  assumes "list_all2 (rep h) ts vs" and "alloc (HArray vs) h = (a, h')"
  shows "rep h' (JArr ts) (HRef a)"
proof -
  have "keeps h h'" and "a = next_free h" and "next_free h' = Suc (next_free h)"
    using alloc_keeps [OF assms(2)] by simp_all
  moreover have "cells h' a = HArray vs"
    using assms(2) by (auto simp: alloc_def)
  ultimately show ?thesis
    using list_rep_keeps [OF _ assms(1)] by (auto simp: rep_JArr)
qed

lemma rep_hqualifiedId:
  assumes "rendering str" and "rep h t v"
  shows "hqualifiedId str r h v = qualifiedId r t"
  by (simp add: hqualifiedId_def qualifiedId_def rep_htoString [OF assms])

lemma sim_localizeButton:
  assumes str: "rendering str"
      and "rep h t v"
  shows "case hlocalizeButton str r h v of
           (res, h') \<Rightarrow> sim h' (localizeButton r t) res"
proof (cases "nullish t")
  case True
  then show ?thesis
    using rep_nullish [OF assms(2)]
    by (simp add: hlocalizeButton_def localizeButton_def member_def hmember_def)
next
  case False
  have q: "hqualifiedId str r h (hgetProp h v ''id'') = qualifiedId r (getProp t ''id'')"
    using rep_hqualifiedId [OF str rep_getProp [OF assms(2)]] .
  show ?thesis
  proof (cases "qualifiedId r (getProp t ''id'')")
    case (Inl e)
    with False q rep_nullish [OF assms(2)] show ?thesis
      by (simp add: hlocalizeButton_def localizeButton_def member_def hmember_def)
  next
    case (Inr s)
    let ?qs = "AList.update ''id'' (HStr s)
                 (AList.update ''location'' (HStr ''right'') (hownProps h v))"
    let ?ps = "AList.update ''id'' (JStr s)
                 (AList.update ''location'' (JStr ''right'') (ownProps t))"
    obtain a h' where al: "alloc (HObject ?qs) h = (a, h')"
      by (cases "alloc (HObject ?qs) h")
    have "repProps h ?ps ?qs"
      by (intro repProps_update rep_ownProps assms(2)) simp_all
    then have "rep h' (JObj ?ps) (HRef a)"
      using rep_alloc al by blast
    then show ?thesis
      using False Inr q rep_nullish [OF assms(2)] al
      by (simp add: hlocalizeButton_def localizeButton_def member_def hmember_def)
  qed
qed

lemma sim_mapE:
  assumes str: "rendering str"
  shows "list_all2 (rep h) ts vs \<Longrightarrow>
         (case hmapE (hlocalizeButton str r) h vs of
            (res, h') \<Rightarrow>
              (case mapE (localizeButton r) ts of
                 Inl e \<Rightarrow> res = Inl e
               | Inr ts' \<Rightarrow> (\<exists>vs'. res = Inr vs' \<and> list_all2 (rep h') ts' vs')))"
proof (induction ts arbitrary: vs h)
  case Nil
  then show ?case by simp
next
  case (Cons t ts)
  from Cons.prems obtain v vs0 where vs: "vs = v # vs0" and tv: "rep h t v"
      and rest: "list_all2 (rep h) ts vs0"
    by (auto simp: list_all2_Cons1)
  obtain r1 h1 where b: "hlocalizeButton str r h v = (r1, h1)"
    by (cases "hlocalizeButton str r h v")
  have s1: "sim h1 (localizeButton r t) r1"
    using sim_localizeButton [OF str tv, where r = r] b by simp
  have k1: "keeps h h1"
    using hlocalizeButton_keeps [OF b] .
  show ?case
  proof (cases "localizeButton r t")
    case (Inl e)
    with s1 have "r1 = Inl e" by (cases r1) simp_all
    with Inl b vs show ?thesis by simp
  next
    case (Inr t')
    with s1 obtain v' where r1: "r1 = Inr v'" and tv': "rep h1 t' v'"
      by (cases r1) simp_all
    obtain r2 h2 where m: "hmapE (hlocalizeButton str r) h1 vs0 = (r2, h2)"
      by (cases "hmapE (hlocalizeButton str r) h1 vs0")
    have k2: "keeps h1 h2"
      using hmapE_keeps [OF _ m] hlocalizeButton_keeps by blast
    have ih: "case mapE (localizeButton r) ts of
                 Inl e \<Rightarrow> r2 = Inl e
               | Inr ts' \<Rightarrow> (\<exists>vs'. r2 = Inr vs' \<and> list_all2 (rep h2) ts' vs')"
      using Cons.IH [OF list_rep_keeps [OF k1 rest]] m by simp
    show ?thesis
    proof (cases "mapE (localizeButton r) ts")
      case (Inl e)
      with ih Inr b r1 m vs show ?thesis by simp
    next
      case (Inr ts')
      with ih obtain vs' where "r2 = Inr vs'" and "list_all2 (rep h2) ts' vs'"
        by auto
      with \<open>localizeButton r t = Inr t'\<close> Inr b r1 m vs rep_keeps [OF k2 tv']
      show ?thesis by simp
    qed
  qed
qed


lemma sim_localizeLeftButton:
  assumes str: "rendering str"
      and b: "rep h t v"
  shows "case hlocalizeLeftButton str r h v of
           (res, h') \<Rightarrow> sim h' (localizeLeftButton r t) res"
proof -
  let ?hl = "hgetProp h v ''leftButton''"
  let ?l = "getProp t ''leftButton''"
  have l: "rep h ?l ?hl"
    using rep_getProp [OF b] .
  have i: "rep h (getProp ?l ''id'') (hgetProp h ?hl ''id'')"
    using rep_getProp [OF l] .
  have q: "hqualifiedId str r h (hgetProp h ?hl ''id'') = qualifiedId r (getProp ?l ''id'')"
    using rep_hqualifiedId [OF str i] .
  let ?hid = "if htruthy (hgetProp h ?hl ''id'')
              then (case hqualifiedId str r h (hgetProp h ?hl ''id'') of
                      Inl e \<Rightarrow> Inl e
                    | Inr q \<Rightarrow> Inr (HStr q))
              else Inr HUndefined"
  let ?id = "if truthy (getProp ?l ''id'')
             then (case qualifiedId r (getProp ?l ''id'') of
                     Inl e \<Rightarrow> Inl e
                   | Inr q \<Rightarrow> Inr (JStr q))
             else Inr JUndefined"
  show ?thesis
  proof (cases "truthy ?l")
    case False
    with rep_truthy [OF l] show ?thesis
      by (simp add: hlocalizeLeftButton_def localizeLeftButton_def)
  next
    case True
    show ?thesis
    proof (cases ?id)
      case (Inl e)
      then have "?hid = Inl e"
        using rep_truthy [OF i] q by (auto split: if_splits sum.splits)
      with Inl True rep_truthy [OF l] show ?thesis
        by (simp add: hlocalizeLeftButton_def localizeLeftButton_def Let_def)
    next
      case (Inr ti)
      then obtain vi where hid: "?hid = Inr vi" and ri: "rep h ti vi"
        using rep_truthy [OF i] q by (auto split: if_splits sum.splits)
      have ps: "repProps h (AList.update ''id'' ti (ownProps ?l))
                  (AList.update ''id'' vi (hownProps h ?hl))"
        by (intro repProps_update rep_ownProps l ri)
      obtain a h' where al: "alloc (HObject (AList.update ''id'' vi (hownProps h ?hl))) h = (a, h')"
        by (cases "alloc (HObject (AList.update ''id'' vi (hownProps h ?hl))) h")
      have "rep h' (JObj (AList.update ''id'' ti (ownProps ?l))) (HRef a)"
        using rep_alloc [OF ps al] .
      with Inr hid True rep_truthy [OF l] al show ?thesis
        by (simp add: hlocalizeLeftButton_def localizeLeftButton_def Let_def)
    qed
  qed
qed

lemma sim_localizeButtons:
  assumes str: "rendering str"
      and b: "rep h t v"
  shows "case hlocalizeButtons str r h v of
           (res, h') \<Rightarrow> sim h' (localizeButtons r t) res"
proof -
  let ?hb = "hgetProp h v ''buttons''"
  let ?b = "getProp t ''buttons''"
  have bb: "rep h ?b ?hb"
    using rep_getProp [OF b] .
  show ?thesis
  proof (cases "truthy ?b")
    case False
    with rep_truthy [OF bb] show ?thesis
      by (simp add: hlocalizeButtons_def localizeButtons_def)
  next
    case True
    then have ht: "htruthy ?hb"
      using rep_truthy [OF bb] by simp
    show ?thesis
    proof (cases ?b)
      case (JArr ts)
      with bb obtain a vs where hb: "?hb = HRef a" and c: "cells h a = HArray vs"
          and r: "list_all2 (rep h) ts vs"
        by (auto simp: rep_JArr)
      obtain r1 h1 where m: "hmapE (hlocalizeButton str r) h vs = (r1, h1)"
        by (cases "hmapE (hlocalizeButton str r) h vs")
      have s: "case mapE (localizeButton r) ts of
                 Inl e \<Rightarrow> r1 = Inl e
               | Inr ts' \<Rightarrow> (\<exists>vs'. r1 = Inr vs' \<and> list_all2 (rep h1) ts' vs')"
        using sim_mapE [OF str r, where r = r] m by simp
      show ?thesis
      proof (cases "mapE (localizeButton r) ts")
        case (Inl e)
        with s JArr hb c m True ht show ?thesis
          by (simp add: hlocalizeButtons_def localizeButtons_def)
      next
        case (Inr ts')
        with s obtain vs' where r1: "r1 = Inr vs'" and r': "list_all2 (rep h1) ts' vs'"
          by auto
        obtain a' h' where al: "alloc (HArray vs') h1 = (a', h')"
          by (cases "alloc (HArray vs') h1")
        have "rep h' (JArr ts') (HRef a')"
          using rep_alloc_array [OF r' al] .
        with Inr JArr hb c m True ht r1 al show ?thesis
          by (simp add: hlocalizeButtons_def localizeButtons_def)
      qed
    next
      case (JObj ps)
      with bb True ht show ?thesis
        by (auto simp: rep_JObj hlocalizeButtons_def localizeButtons_def)
    qed (use bb True ht in \<open>auto simp: hlocalizeButtons_def localizeButtons_def\<close>)
  qed
qed

text \<open>
  Run on a store value that unfolds to the tree \<open>t\<close>, the localizer on the store throws
  what the localizer on values throws on \<open>t\<close>, or returns a reference that unfolds, in
  the store after the call, to the tree the localizer on values returns.
\<close>

theorem store_localizer_agrees:
  assumes str: "rendering str"
      and b: "rep h t v"
  shows "case hlocalizeNavigationBar str r v h of
           (res, h') \<Rightarrow> sim h' (localizeNavigationBar r t) res"
proof (cases "truthy t")
  case False
  obtain a h' where al: "alloc (HObject []) h = (a, h')"
    by (cases "alloc (HObject []) h")
  have "rep h' (JObj []) (HRef a)"
    using rep_alloc [OF repProps_Nil al] .
  with False rep_truthy [OF b] al show ?thesis
    by (simp add: hlocalizeNavigationBar_def localizeNavigationBar_def)
next
  case True
  obtain r1 h1 where l: "hlocalizeLeftButton str r h v = (r1, h1)"
    by (cases "hlocalizeLeftButton str r h v")
  have k1: "keeps h h1"
    using hlocalizeLeftButton_keeps [OF l] .
  have s1: "sim h1 (localizeLeftButton r t) r1"
    using sim_localizeLeftButton [OF str b, where r = r] l by simp
  show ?thesis
  proof (cases "localizeLeftButton r t")
    case (Inl e)
    with s1 have "r1 = Inl e" by (cases r1) simp_all
    with Inl True rep_truthy [OF b] l show ?thesis
      by (simp add: hlocalizeNavigationBar_def localizeNavigationBar_def)
  next
    case left: (Inr leftButton)
    with s1 obtain lb where r1: "r1 = Inr lb" and rl: "rep h1 leftButton lb"
      by (cases r1) simp_all
    obtain r2 h2 where bs: "hlocalizeButtons str r h1 v = (r2, h2)"
      by (cases "hlocalizeButtons str r h1 v")
    have k2: "keeps h1 h2"
      using hlocalizeButtons_keeps [OF bs] .
    have s2: "sim h2 (localizeButtons r t) r2"
      using sim_localizeButtons [OF str rep_keeps [OF k1 b], where r = r] bs by simp
    show ?thesis
    proof (cases "localizeButtons r t")
      case (Inl e)
      with s2 have "r2 = Inl e" by (cases r2) simp_all
      with Inl left True rep_truthy [OF b] l r1 bs show ?thesis
        by (simp add: hlocalizeNavigationBar_def localizeNavigationBar_def)
    next
      case (Inr buttons)
      with s2 obtain hbuttons where r2: "r2 = Inr hbuttons" and rb: "rep h2 buttons hbuttons"
        by (cases r2) simp_all
      let ?qs = "AList.update ''buttons'' hbuttons
                   (AList.update ''leftButton'' lb (hownProps h v))"
      let ?ps = "AList.update ''buttons'' buttons
                   (AList.update ''leftButton'' leftButton (ownProps t))"
      have "repProps h2 (ownProps t) (hownProps h v)"
        using repProps_keeps [OF keeps_trans [OF k1 k2] rep_ownProps [OF b]] .
      then have ps: "repProps h2 ?ps ?qs"
        by (intro repProps_update rb rep_keeps [OF k2 rl])
      obtain a h3 where al: "alloc (HObject ?qs) h2 = (a, h3)"
        by (cases "alloc (HObject ?qs) h2")
      have "rep h3 (JObj ?ps) (HRef a)"
        using rep_alloc [OF ps al] .
      with Inr left True rep_truthy [OF b] l r1 bs r2 al show ?thesis
        by (simp add: hlocalizeNavigationBar_def localizeNavigationBar_def)
    qed
  qed
qed

text \<open>
  The tree a store value unfolds to is unique, so a conversion \<open>str\<close> as required exists;
  and the sample store holds the sample bar.
\<close>

lemma repProps_length: "repProps h ps qs \<Longrightarrow> length ps = length qs"
  by (simp add: repProps_def list_all2_lengthD)

lemma repProps_nth:
  "repProps h ps qs \<Longrightarrow> i < length ps \<Longrightarrow>
   fst (ps ! i) = fst (qs ! i) \<and> rep h (snd (ps ! i)) (snd (qs ! i))"
  by (simp add: repProps_def list_all2_conv_all_nth)

lemma rep_functional: "rep h t v \<Longrightarrow> rep h t' v \<Longrightarrow> t = t'"
proof (induction t arbitrary: t' v)
  case (JObj ps)
  from JObj.prems(1) obtain a qs where v: "v = HRef a" and c: "cells h a = HObject qs"
      and r: "repProps h ps qs"
    by (auto simp: rep_JObj)
  from JObj.prems(2) v c obtain ps' where t': "t' = JObj ps'" and r': "repProps h ps' qs"
    by (cases t') (auto simp: rep_JObj rep_JArr)
  have len: "length ps = length ps'"
    using repProps_length [OF r] repProps_length [OF r'] by simp
  have "ps ! i = ps' ! i" if i: "i < length ps" for i
  proof -
    have 1: "fst (ps ! i) = fst (qs ! i)" and 2: "rep h (snd (ps ! i)) (snd (qs ! i))"
      using repProps_nth [OF r i] by simp_all
    have 3: "fst (ps' ! i) = fst (qs ! i)" and 4: "rep h (snd (ps' ! i)) (snd (qs ! i))"
      using repProps_nth [OF r'] i len by simp_all
    have "ps ! i \<in> set ps"
      using i by simp
    moreover have "snd (ps ! i) \<in> Basic_BNFs.snds (ps ! i)"
      by (cases "ps ! i") (simp add: snds.simps)
    ultimately have "snd (ps ! i) = snd (ps' ! i)"
      using JObj.IH 2 4 by blast
    with 1 3 show ?thesis
      by (simp add: prod_eq_iff)
  qed
  with len have "ps = ps'"
    by (simp add: nth_equalityI)
  with t' show ?case by simp
next
  case (JArr ts)
  from JArr.prems(1) obtain a vs where v: "v = HRef a" and c: "cells h a = HArray vs"
      and r: "list_all2 (rep h) ts vs"
    by (auto simp: rep_JArr)
  from JArr.prems(2) v c obtain ts' where t': "t' = JArr ts'" and r': "list_all2 (rep h) ts' vs"
    by (cases t') (auto simp: rep_JObj rep_JArr)
  have len: "length ts = length ts'"
    using list_all2_lengthD [OF r] list_all2_lengthD [OF r'] by simp
  have "ts ! i = ts' ! i" if i: "i < length ts" for i
  proof -
    have "rep h (ts ! i) (vs ! i)"
      using r i by (simp add: list_all2_conv_all_nth)
    moreover have "rep h (ts' ! i) (vs ! i)"
      using r' i len by (simp add: list_all2_conv_all_nth)
    moreover have "ts ! i \<in> set ts"
      using i by simp
    ultimately show ?thesis
      using JArr.IH by blast
  qed
  with len have "ts = ts'"
    by (simp add: nth_equalityI)
  with t' show ?case by simp
next
  case JUndefined
  then show ?case by (cases t') (simp_all add: rep_JObj rep_JArr)
next
  case JNull
  then show ?case by (cases t') (simp_all add: rep_JObj rep_JArr)
next
  case (JBool x)
  then show ?case by (cases t') (simp_all add: rep_JObj rep_JArr)
next
  case (JNum x)
  then show ?case by (cases t') (simp_all add: rep_JObj rep_JArr)
next
  case (JStr x)
  then show ?case by (cases t') (simp_all add: rep_JObj rep_JArr)
qed

lemma rendering_exists: "\<exists>str. rendering str"
proof
  show "rendering (\<lambda>h a. toString (THE t. rep h t (HRef a)))"
    unfolding rendering_def
  proof (intro allI impI)
    fix h a t
    assume r: "rep h t (HRef a)"
    then have "(THE t. rep h t (HRef a)) = t"
      by (intro the_equality) (auto dest: rep_functional)
    then show "toString (THE t. rep h t (HRef a)) = toString t"
      by simp
  qed
qed

lemma sampleHeap_rep: "rep sampleHeap sampleBar (HRef 0)"
  by (simp add: rep_JObj rep_JArr repProps_def sampleHeap_def sampleBar_def sampleButton_def)

end
